theory Spec2Isabelle
  imports Complex_Main "HOL-Library.AList"
begin

section \<open>Python values, strings and dictionaries\<close>

text \<open>
  The exceptions the module can raise. The two \<open>ValueError\<close> instances are kept apart
  by their message: the one the module raises itself for an unknown instrument family,
  and the one of the builtin \<open>int()\<close> on a string that is no integer literal.
\<close>

datatype error =
    ValueError_invalid_instrument_name string
  | ValueError_invalid_literal string
  | KeyError
  | TypeError
  | AttributeError

text \<open>
  A value held in a response dictionary or a JSON document: \<open>None\<close>, a boolean, a
  number (JSON numbers and Python floats are carried, never computed with) or a string.
\<close>

datatype val = VNone | VBool bool | VNum rat | VStr string

text \<open>
  A \<open>dict\<close> keeps its keys in insertion order: an association list with distinct
  keys. Assigning to a present key replaces the value in place, assigning to an absent
  key appends (this is \<^const>\<open>AList.update\<close>); \<open>d.update(e)\<close> assigns the items of
  \<open>e\<close> in order; \<open>d.get(k)\<close> is \<open>None\<close> for an absent key.
\<close>

type_synonym 'v dict = "(string \<times> 'v) list"

definition dict_update :: "'v dict \<Rightarrow> 'v dict \<Rightarrow> 'v dict" where
  "dict_update d e = fold (\<lambda>(k, v). AList.update k v) e d"

definition dict_get :: "val dict \<Rightarrow> string \<Rightarrow> val" where
  "dict_get d k = (case map_of d k of None \<Rightarrow> VNone | Some v \<Rightarrow> v)"

definition dict_keys :: "'v dict \<Rightarrow> string list" where
  "dict_keys d = map fst d"

subsection \<open>Strings\<close>

text \<open>
  Strings are ASCII, as the bus protocol's texts are. \<open>str.startswith\<close>,
  \<open>str.upper\<close> and \<open>str.strip\<close> (which removes the whitespace characters
  9 to 13 and 28 to 32 from both ends).
\<close>

definition startswith :: "string \<Rightarrow> string \<Rightarrow> bool" where
  "startswith s p = (take (length p) s = p)"

definition upper_char :: "char \<Rightarrow> char" where
  "upper_char c =
     (case map_of (zip ''abcdefghijklmnopqrstuvwxyz'' ''ABCDEFGHIJKLMNOPQRSTUVWXYZ'') c of
        None \<Rightarrow> c
      | Some u \<Rightarrow> u)"

definition upper :: "string \<Rightarrow> string" where
  "upper s = map upper_char s"

definition is_space :: "char \<Rightarrow> bool" where
  "is_space c =
     (c \<in> set [CHR 0x09, CHR 0x0A, CHR 0x0B, CHR 0x0C, CHR 0x0D,
                CHR 0x1C, CHR 0x1D, CHR 0x1E, CHR 0x1F, CHR 0x20])"

definition strip :: "string \<Rightarrow> string" where
  "strip s = rev (dropWhile is_space (rev (dropWhile is_space s)))"

text \<open>
  The whitespace that \<open>int()\<close> skips around a numeral in an ASCII string: the
  characters 9 to 13 and the space.
\<close>

definition is_int_space :: "char \<Rightarrow> bool" where
  "is_int_space c = (c \<in> set [CHR 0x09, CHR 0x0A, CHR 0x0B, CHR 0x0C, CHR 0x0D, CHR 0x20])"

definition int_strip :: "string \<Rightarrow> string" where
  "int_strip s = rev (dropWhile is_int_space (rev (dropWhile is_int_space s)))"

subsection \<open>Integers and their decimal text\<close>

definition is_digit :: "char \<Rightarrow> bool" where
  "is_digit c = (c \<in> set ''0123456789'')"

definition digit_char :: "nat \<Rightarrow> char" where
  "digit_char n = ''0123456789'' ! n"

definition digit_val :: "char \<Rightarrow> nat" where
  "digit_val c = length (takeWhile (\<lambda>d. d \<noteq> c) ''0123456789'')"

text \<open>\<open>str(n)\<close> for a natural number: its decimal digits, most significant first.\<close>

function str_nat :: "nat \<Rightarrow> string" where
  "str_nat n = (if n < 10 then [digit_char n] else str_nat (n div 10) @ [digit_char (n mod 10)])"
  by pat_completeness auto
termination
  by (relation "measure id") auto

declare str_nat.simps [simp del]

text \<open>\<open>str(i)\<close> for an \<open>int\<close>, which is also what \<open>f'{i}'\<close> renders.\<close>

definition py_str :: "int \<Rightarrow> string" where
  "py_str i = (if i < 0 then CHR ''-'' # str_nat (nat (- i)) else str_nat (nat i))"

text \<open>
  \<open>int(s)\<close> for a string: surrounding whitespace (the characters 9 to 13 and the
  space) is dropped, one sign is allowed, and
  the rest must be decimal digits, where single underscores may stand between digits.
  Anything else raises \<open>ValueError\<close>.
\<close>

fun no_double_underscore :: "string \<Rightarrow> bool" where
  "no_double_underscore (a # b # r) =
     (\<not> (a = CHR ''_'' \<and> b = CHR ''_'') \<and> no_double_underscore (b # r))"
| "no_double_underscore _ = True"

definition int_body_ok :: "string \<Rightarrow> bool" where
  "int_body_ok b =
     (b \<noteq> [] \<and> list_all (\<lambda>c. is_digit c \<or> c = CHR ''_'') b \<and>
      hd b \<noteq> CHR ''_'' \<and> last b \<noteq> CHR ''_'' \<and> no_double_underscore b)"

definition digits_val :: "string \<Rightarrow> nat" where
  "digits_val ds = foldl (\<lambda>a c. 10 * a + digit_val c) 0 ds"

definition py_int :: "string \<Rightarrow> error + int" where
  "py_int s =
     (let t = int_strip s;
          neg = (t \<noteq> [] \<and> hd t = CHR ''-'');
          b = (if t \<noteq> [] \<and> (hd t = CHR ''-'' \<or> hd t = CHR ''+'') then tl t else t)
      in if int_body_ok b
         then Inr ((if neg then - 1 else 1) * int (digits_val (filter (\<lambda>c. c \<noteq> CHR ''_'') b)))
         else Inl (ValueError_invalid_literal s))"

section \<open>The device driver and the log\<close>

text \<open>
  The driver object \<open>self.sensosys\<close> (module \<open>SensoSysDevices\<close>, an external
  collaborator): each read takes an address and answers with a dictionary, or with
  \<open>None\<close> when the device gives no response. A driver value is the bus as it answers
  during one scan or one read cycle. \<open>senso_hygbar_sensor_config\<close> is the driver's
  table of hygrometer/barometer variants; the field gives
  \<open>senso_hygbar_sensor_config[c]['params']\<close>, and \<open>None\<close> where that lookup raises
  \<open>KeyError\<close>.
\<close>

record driver =
  read_instrument_name :: "int \<Rightarrow> val dict option"
  read_serial_number :: "int \<Rightarrow> val dict option"
  read_expired_calibration_date :: "int \<Rightarrow> val dict option"
  read_battery_state :: "int \<Rightarrow> val dict option"
  senso_anemo_read_configuration :: "int \<Rightarrow> val dict option"
  senso_anemo_read_indicator :: "int \<Rightarrow> val dict option"
  senso_therm_read_configuration :: "int \<Rightarrow> val dict option"
  senso_therm_read_indicator :: "int \<Rightarrow> int \<Rightarrow> val dict option"
  senso_hygbar_read_configuration :: "int \<Rightarrow> val dict option"
  senso_anemo_read_measurement_data :: "int \<Rightarrow> val dict option"
  senso_therm_read_temperatures_enabled_channels :: "int \<Rightarrow> val dict option"
  senso_hygbar_read_measurement_data :: "int \<Rightarrow> val \<Rightarrow> val dict option"
  senso_hygbar_sensor_config :: "val \<Rightarrow> string list option"

text \<open>
  What the process does besides computing: the records it logs at warning and error
  level (with the logger's name; info records are not traced), the directories and JSON
  files it writes, the device manager it opens, and the header list it hands to the data
  logger.
\<close>

datatype level = WARNING | ERROR

datatype event =
    Log string level string
  | MakeDirs string
  | DumpJson string string
  | PopDeviceManagement
  | Headers "string list"

section \<open>The measurement reader\<close>

text \<open>
  An entry of \<open>sensosys_devices_list\<close>: the key of the device in the scan result (the
  text of its address), its instrument name and its sensor-config variant.
\<close>

type_synonym device = "string \<times> val \<times> val"

text \<open>
  The body of the loop of \<open>get_all_measurement_parameters\<close>: the parameter names one
  device adds. \<open>name.startswith\<close> on a value that is no string raises
  \<open>AttributeError\<close>.
\<close>

definition device_params :: "driver \<Rightarrow> device \<Rightarrow> error + string list" where
  "device_params drv d =
     (case d of (dev_id, name, sensor_config) \<Rightarrow>
        (case name of
           VStr n \<Rightarrow>
             if startswith n ''ANEMO'' then
               Inr [''t_a_'' @ dev_id, ''v_'' @ dev_id, ''vstar_'' @ dev_id]
             else if startswith n ''THERM'' then
               Inr [''t_a_'' @ dev_id, ''t_g_'' @ dev_id, ''t_w_'' @ dev_id, ''t_s_'' @ dev_id]
             else if startswith n ''HYGRO'' then
               (case senso_hygbar_sensor_config drv sensor_config of
                  None \<Rightarrow> Inl KeyError
                | Some ps \<Rightarrow> Inr (map (\<lambda>p. p @ ''_'' @ dev_id) ps))
             else Inl (ValueError_invalid_instrument_name n)
         | _ \<Rightarrow> Inl AttributeError))"

fun get_all_loop :: "driver \<Rightarrow> device list \<Rightarrow> string list \<Rightarrow> error + string list" where
  "get_all_loop drv [] params = Inr params"
| "get_all_loop drv (d # ds) params =
     (case device_params drv d of
        Inl e \<Rightarrow> Inl e
      | Inr ps \<Rightarrow> get_all_loop drv ds (params @ ps))"

definition get_all_measurement_parameters :: "driver \<Rightarrow> device list \<Rightarrow> error + string list" where
  "get_all_measurement_parameters drv devs = get_all_loop drv devs []"

text \<open>
  The body of the loop of \<open>read_data\<close>: the values one device adds and the warning
  it logs when its read gives no response. The hygrometer/barometer branch reads the
  device first and looks its variant up afterwards, in both branches.
\<close>

definition no_data_warning :: "int \<Rightarrow> string \<Rightarrow> event" where
  "no_data_warning i n =
     Log ''SensoSys'' WARNING (''No data received from '' @ py_str i @ '' - '' @ n @ '' ...'')"

definition device_data :: "driver \<Rightarrow> device \<Rightarrow> error + (val list \<times> event list)" where
  "device_data drv d =
     (case d of (dev_id, name, sensor_config) \<Rightarrow>
        (case py_int dev_id of
           Inl e \<Rightarrow> Inl e
         | Inr i \<Rightarrow>
             (case name of
                VStr n \<Rightarrow>
                  if startswith n ''ANEMO'' then
                    (case senso_anemo_read_measurement_data drv i of
                       None \<Rightarrow> Inr ([VNone, VNone, VNone], [no_data_warning i n])
                     | Some r \<Rightarrow>
                         Inr ([dict_get r ''t_a'', dict_get r ''v'', dict_get r ''v_star''], []))
                  else if startswith n ''THERM'' then
                    (case senso_therm_read_temperatures_enabled_channels drv i of
                       None \<Rightarrow> Inr ([VNone, VNone, VNone, VNone], [no_data_warning i n])
                     | Some r \<Rightarrow>
                         Inr ([dict_get r ''t_a'', dict_get r ''t_g'', dict_get r ''t_w'',
                               dict_get r ''t_s''], []))
                  else if startswith n ''HYGRO'' then
                    (case senso_hygbar_read_measurement_data drv i sensor_config of
                       None \<Rightarrow>
                         (case senso_hygbar_sensor_config drv sensor_config of
                            None \<Rightarrow> Inl KeyError
                          | Some ps \<Rightarrow>
                              Inr (map (\<lambda>_. VNone) [0..<length ps], [no_data_warning i n]))
                     | Some r \<Rightarrow>
                         (case senso_hygbar_sensor_config drv sensor_config of
                            None \<Rightarrow> Inl KeyError
                          | Some ps \<Rightarrow> Inr (map (\<lambda>p. dict_get r p) ps, [])))
                  else Inl (ValueError_invalid_instrument_name n)
              | _ \<Rightarrow> Inl AttributeError)))"

fun read_data_loop ::
  "driver \<Rightarrow> device list \<Rightarrow> val list \<Rightarrow> event list \<Rightarrow> error + (val list \<times> event list)" where
  "read_data_loop drv [] data lg = Inr (data, lg)"
| "read_data_loop drv (d # ds) data lg =
     (case device_data drv d of
        Inl e \<Rightarrow> Inl e
      | Inr (vs, l) \<Rightarrow> read_data_loop drv ds (data @ vs) (lg @ l))"

definition read_data :: "driver \<Rightarrow> device list \<Rightarrow> error + (val list \<times> event list)" where
  "read_data drv devs = read_data_loop drv devs [] []"

text \<open>
  The alignment that the specification asks of header and row, written out: a device
  contributes, in this order, the pairs of a parameter name, suffixed with the device's
  key, and the reading of that parameter in the answer of the device's measurement read
  (\<open>None\<close> when the device does not answer or the answer lacks the parameter). The
  anemometer's parameter \<open>vstar\<close> is the reading \<open>v_star\<close>.
\<close>

definition reading :: "val dict option \<Rightarrow> string \<Rightarrow> val" where
  "reading resp p = (case resp of None \<Rightarrow> VNone | Some r \<Rightarrow> dict_get r p)"

definition aligned_pairs :: "driver \<Rightarrow> device \<Rightarrow> (string \<times> val) list" where
  "aligned_pairs drv d =
     (case d of (k, name, c) \<Rightarrow>
        (case (py_int k, name) of
           (Inr i, VStr n) \<Rightarrow>
             if startswith n ''ANEMO'' then
               [(''t_a_'' @ k, reading (senso_anemo_read_measurement_data drv i) ''t_a''),
                (''v_'' @ k, reading (senso_anemo_read_measurement_data drv i) ''v''),
                (''vstar_'' @ k, reading (senso_anemo_read_measurement_data drv i) ''v_star'')]
             else if startswith n ''THERM'' then
               [(''t_a_'' @ k, reading (senso_therm_read_temperatures_enabled_channels drv i) ''t_a''),
                (''t_g_'' @ k, reading (senso_therm_read_temperatures_enabled_channels drv i) ''t_g''),
                (''t_w_'' @ k, reading (senso_therm_read_temperatures_enabled_channels drv i) ''t_w''),
                (''t_s_'' @ k, reading (senso_therm_read_temperatures_enabled_channels drv i) ''t_s'')]
             else if startswith n ''HYGRO'' then
               (case senso_hygbar_sensor_config drv c of
                  None \<Rightarrow> []
                | Some ps \<Rightarrow>
                    map (\<lambda>p. (p @ ''_'' @ k,
                              reading (senso_hygbar_read_measurement_data drv i c) p)) ps)
             else []
         | _ \<Rightarrow> []))"

section \<open>The bus scanner\<close>

subsection \<open>Dates: \<open>datetime.strptime\<close> and \<open>strftime\<close>\<close>

text \<open>
  \<open>strptime\<close> turns the format into a regular expression, one group per directive,
  and matches it at the start of the text; the alternatives of a group are tried in
  order, with backtracking. The directives the module uses are
  \<open>%d\<close> = \<open>3[0-1]|[1-2]\d|0[1-9]|[1-9]| [1-9]\<close>,
  \<open>%m\<close> = \<open>1[0-2]|0[1-9]|[1-9]\<close> and \<open>%y\<close> = \<open>\d\d\<close>; any other character
  of its formats stands for itself. A directive outside these three is a bad directive
  here.
\<close>

datatype directive = Dir_d | Dir_m | Dir_y | Lit char

fun format_directives :: "string \<Rightarrow> directive list option" where
  "format_directives [] = Some []"
| "format_directives (c # r) =
     (if c = CHR ''%'' then
        (case r of
           [] \<Rightarrow> None
         | x # r' \<Rightarrow>
             (case format_directives r' of
                None \<Rightarrow> None
              | Some ds \<Rightarrow>
                  if x = CHR ''d'' then Some (Dir_d # ds)
                  else if x = CHR ''m'' then Some (Dir_m # ds)
                  else if x = CHR ''y'' then Some (Dir_y # ds)
                  else if x = CHR ''%'' then Some (Lit CHR ''%'' # ds)
                  else None))
      else map_option ((#) (Lit c)) (format_directives r))"

definition one_char :: "(char \<Rightarrow> bool) \<Rightarrow> string \<Rightarrow> (string \<times> string) list" where
  "one_char P s = (case s of a # r \<Rightarrow> if P a then [([a], r)] else [] | _ \<Rightarrow> [])"

definition two_chars :: "(char \<Rightarrow> bool) \<Rightarrow> (char \<Rightarrow> bool) \<Rightarrow> string \<Rightarrow> (string \<times> string) list" where
  "two_chars P Q s =
     (case s of a # b # r \<Rightarrow> if P a \<and> Q b then [([a, b], r)] else [] | _ \<Rightarrow> [])"

definition is_nonzero_digit :: "char \<Rightarrow> bool" where
  "is_nonzero_digit c = (c \<in> set ''123456789'')"

text \<open>The ways a directive matches at the start of a text, in the order they are tried:
  the piece matched and the rest.\<close>

fun directive_matches :: "directive \<Rightarrow> string \<Rightarrow> (string \<times> string) list" where
  "directive_matches Dir_d s =
     two_chars (\<lambda>a. a = CHR ''3'') (\<lambda>b. b \<in> set ''01'') s @
     two_chars (\<lambda>a. a \<in> set ''12'') is_digit s @
     two_chars (\<lambda>a. a = CHR ''0'') is_nonzero_digit s @
     one_char is_nonzero_digit s @
     two_chars (\<lambda>a. a = CHR '' '') is_nonzero_digit s"
| "directive_matches Dir_m s =
     two_chars (\<lambda>a. a = CHR ''1'') (\<lambda>b. b \<in> set ''012'') s @
     two_chars (\<lambda>a. a = CHR ''0'') is_nonzero_digit s @
     one_char is_nonzero_digit s"
| "directive_matches Dir_y s = two_chars is_digit is_digit s"
| "directive_matches (Lit c) s = one_char (\<lambda>a. a = c) s"

fun match_seq :: "directive list \<Rightarrow> string \<Rightarrow> ((directive \<times> string) list \<times> string) option"
  and match_alts ::
    "directive \<Rightarrow> directive list \<Rightarrow> (string \<times> string) list \<Rightarrow>
       ((directive \<times> string) list \<times> string) option" where
  "match_seq [] s = Some ([], s)"
| "match_seq (t # ts) s = match_alts t ts (directive_matches t s)"
| "match_alts t ts [] = None"
| "match_alts t ts (mr # alts) =
     (case match_seq ts (snd mr) of
        Some (groups, rest) \<Rightarrow> Some ((t, fst mr) # groups, rest)
      | None \<Rightarrow> match_alts t ts alts)"

definition is_leap :: "nat \<Rightarrow> bool" where
  "is_leap y = (y mod 4 = 0 \<and> (y mod 100 \<noteq> 0 \<or> y mod 400 = 0))"

definition days_in_month :: "nat \<Rightarrow> nat \<Rightarrow> nat" where
  "days_in_month y m =
     (if m = 2 then (if is_leap y then 29 else 28)
      else if m \<in> set [4, 6, 9, 11] then 30 else 31)"

text \<open>
  A date is (year, month, day). \<open>strptime\<close> is \<open>None\<close> where Python raises
  \<open>ValueError\<close>: the text does not match, text remains after the match, or the day
  does not exist in the month. A two-digit year up to 68 is in 2000 to 2068, another
  one in 1969 to 1999; a field without directive keeps its default.
\<close>

type_synonym date = "nat \<times> nat \<times> nat"

definition strptime :: "string \<Rightarrow> string \<Rightarrow> date option" where
  "strptime data_string fmt =
     (case format_directives fmt of
        None \<Rightarrow> None
      | Some ds \<Rightarrow>
          (case match_seq ds data_string of
             None \<Rightarrow> None
           | Some (groups, rest) \<Rightarrow>
               if rest \<noteq> [] then None
               else
                 let year = (case map_of groups Dir_y of
                               None \<Rightarrow> 1900
                             | Some y \<Rightarrow>
                                 if digits_val y \<le> 68 then digits_val y + 2000
                                 else digits_val y + 1900);
                     month = (case map_of groups Dir_m of None \<Rightarrow> 1 | Some m \<Rightarrow> digits_val m);
                     day = (case map_of groups Dir_d of
                              None \<Rightarrow> 1
                            | Some d \<Rightarrow> digits_val (int_strip d))
                 in if day \<le> days_in_month year month then Some (year, month, day) else None))"

definition pad2 :: "nat \<Rightarrow> string" where
  "pad2 n = (if n < 10 then CHR ''0'' # str_nat n else str_nat n)"

text \<open>\<open>strftime\<close> with the directives \<open>%Y\<close>, \<open>%m\<close> and \<open>%d\<close>, for a year of
  four digits.\<close>

fun strftime :: "date \<Rightarrow> string \<Rightarrow> string" where
  "strftime dt [] = []"
| "strftime dt [c] = [c]"
| "strftime dt (c # x # r) =
     (if c = CHR ''%'' then
        (if x = CHR ''Y'' then str_nat (fst dt)
         else if x = CHR ''m'' then pad2 (fst (snd dt))
         else if x = CHR ''d'' then pad2 (snd (snd dt))
         else [c, x]) @ strftime dt r
      else c # strftime dt (x # r))"

text \<open>
  The texts the groups of \<open>%d\<close> and \<open>%m\<close> accept, and the year a group of
  \<open>%y\<close> stands for; the properties of \<open>strptime\<close> are stated with them.
\<close>

definition day_token :: "string \<Rightarrow> bool" where
  "day_token t = (\<exists>a b. (t = [a, b] \<and> a = CHR ''3'' \<and> b \<in> set ''01'') \<or>
                        (t = [a, b] \<and> a \<in> set ''12'' \<and> is_digit b) \<or>
                        (t = [a, b] \<and> a = CHR ''0'' \<and> is_nonzero_digit b) \<or>
                        (t = [a] \<and> is_nonzero_digit a) \<or>
                        (t = [a, b] \<and> a = CHR '' '' \<and> is_nonzero_digit b))"

definition month_token :: "string \<Rightarrow> bool" where
  "month_token t = (\<exists>a b. (t = [a, b] \<and> a = CHR ''1'' \<and> b \<in> set ''012'') \<or>
                        (t = [a, b] \<and> a = CHR ''0'' \<and> is_nonzero_digit b) \<or>
                        (t = [a] \<and> is_nonzero_digit a))"

definition year_of :: "string \<Rightarrow> nat" where
  "year_of ty = (if digits_val ty \<le> 68 then digits_val ty + 2000 else digits_val ty + 1900)"

text \<open>
  The date patterns of the specification, written out on the characters of the text.
  \<open>date_text sep s dt\<close>: the text \<open>s\<close> is a day, the separator, a month, the
  separator and two digits of a year, the day exists in that month, and \<open>dt\<close> is the
  date they name. \<open>month_length_spec\<close> is the calendar of the years 1969 to 2068,
  where every fourth year is a leap year. In the strict form \<open>DD-MM-YY\<close> day and
  month have two digits each.
\<close>

definition month_length_spec :: "nat \<Rightarrow> nat \<Rightarrow> nat" where
  "month_length_spec y m =
     (if m = 2 then (if y mod 4 = 0 then 29 else 28)
      else if m = 4 \<or> m = 6 \<or> m = 9 \<or> m = 11 then 30
      else 31)"

definition date_text :: "char \<Rightarrow> string \<Rightarrow> date \<Rightarrow> bool" where
  "date_text sep s dt =
     (\<exists>td tm a b. s = td @ sep # tm @ sep # [a, b] \<and> day_token td \<and> month_token tm \<and>
        is_digit a \<and> is_digit b \<and>
        dt = (year_of [a, b], digits_val tm, digits_val (int_strip td)) \<and>
        digits_val (int_strip td) \<le> month_length_spec (year_of [a, b]) (digits_val tm))"


text \<open>
  The conversion of the calibration expiry date: every format is tried on the raw text,
  a format that parses stores the ISO date, one that raises \<open>ValueError\<close> changes
  nothing. \<open>strptime\<close> of a value that is no string raises \<open>TypeError\<close>.
\<close>

fun convert_date_loop :: "string \<Rightarrow> string list \<Rightarrow> val dict \<Rightarrow> val dict" where
  "convert_date_loop exp_date [] device_responses = device_responses"
| "convert_date_loop exp_date (fmt # fmts) device_responses =
     convert_date_loop exp_date fmts
       (case strptime exp_date fmt of
          Some dt \<Rightarrow>
            AList.update ''calibration_expired_date'' (VStr (strftime dt ''%Y-%m-%d''))
              device_responses
        | None \<Rightarrow> device_responses)"

definition convert_calibration_date :: "val dict \<Rightarrow> error + val dict" where
  "convert_calibration_date device_responses =
     (case dict_get device_responses ''calibration_expired_date'' of
        VNone \<Rightarrow> Inr device_responses
      | VStr exp_date \<Rightarrow>
          Inr (convert_date_loop exp_date [''%d-%m-%y'', ''%d.%m.%y''] device_responses)
      | _ \<Rightarrow> Inl TypeError)"

subsection \<open>Scanning\<close>

definition and_then :: "error + 'a \<Rightarrow> ('a \<Rightarrow> error + 'b) \<Rightarrow> error + 'b" where
  "and_then r f = (case r of Inl e \<Rightarrow> Inl e | Inr x \<Rightarrow> f x)"

text \<open>\<open>d.update(x)\<close> for the answer of a read: \<open>TypeError\<close> when it is \<open>None\<close>.\<close>

definition update_with :: "val dict \<Rightarrow> val dict option \<Rightarrow> error + val dict" where
  "update_with d x = (case x of None \<Rightarrow> Inl TypeError | Some e \<Rightarrow> Inr (dict_update d e))"

text \<open>The thermometer's indicator channels; \<open>.get\<close> on a missing answer raises
  \<open>AttributeError\<close>.\<close>

fun therm_indicators :: "driver \<Rightarrow> int \<Rightarrow> int list \<Rightarrow> val dict \<Rightarrow> error + val dict" where
  "therm_indicators drv dev_id [] device_responses = Inr device_responses"
| "therm_indicators drv dev_id (ch # chs) device_responses =
     (case senso_therm_read_indicator drv dev_id ch of
        None \<Rightarrow> Inl AttributeError
      | Some ind \<Rightarrow>
          therm_indicators drv dev_id chs
            (dict_update device_responses
               [(''senso_therm_indicator_channel_'' @ py_str ch,
                 dict_get ind ''senso_therm_indicator'')]))"

text \<open>
  The body of the loop of \<open>_scan_devices\<close> for one address: \<open>None\<close> when the
  identity query gives no response, else the device's record. The name that is tested
  for the family is the local \<open>_instrument_name\<close>; the record is the identity
  response itself, updated in place by every later read.
\<close>

definition scan_device :: "driver \<Rightarrow> int \<Rightarrow> error + val dict option" where
  "scan_device drv dev_id =
     (case read_instrument_name drv dev_id of
        None \<Rightarrow> Inr None
      | Some device_name_response \<Rightarrow>
          (case map_of device_name_response ''instrument_name'' of
             None \<Rightarrow> Inl KeyError
           | Some (VStr raw) \<Rightarrow>
               (let instrument_name = strip (upper raw);
                    r0 = AList.update ''instrument_name'' (VStr instrument_name)
                           device_name_response
                in and_then (update_with r0 (read_serial_number drv dev_id)) (\<lambda>r1.
                   and_then (update_with r1 (read_expired_calibration_date drv dev_id)) (\<lambda>r2.
                   and_then (update_with r2 (read_battery_state drv dev_id)) (\<lambda>r3.
                   and_then
                     (if startswith instrument_name ''ANEMO'' then
                        and_then (update_with r3 (senso_anemo_read_configuration drv dev_id))
                          (\<lambda>r4. update_with r4 (senso_anemo_read_indicator drv dev_id))
                      else if startswith instrument_name ''THERM'' then
                        and_then (update_with r3 (senso_therm_read_configuration drv dev_id))
                          (\<lambda>r4. therm_indicators drv dev_id [1, 2, 3, 4] r4)
                      else if startswith instrument_name ''HYGRO'' then
                        update_with r3 (senso_hygbar_read_configuration drv dev_id)
                      else Inl (ValueError_invalid_instrument_name instrument_name)) (\<lambda>r5.
                   and_then (convert_calibration_date r5) (\<lambda>r6. Inr (Some r6)))))))
           | Some _ \<Rightarrow> Inl AttributeError))"

fun scan_loop :: "driver \<Rightarrow> int list \<Rightarrow> val dict dict \<Rightarrow> error + val dict dict" where
  "scan_loop drv [] available_devices = Inr available_devices"
| "scan_loop drv (dev_id # ids) available_devices =
     (case scan_device drv dev_id of
        Inl e \<Rightarrow> Inl e
      | Inr None \<Rightarrow> scan_loop drv ids available_devices
      | Inr (Some device_responses) \<Rightarrow>
          scan_loop drv ids (dict_update available_devices [(py_str dev_id, device_responses)]))"

definition scan_devices :: "driver \<Rightarrow> int list \<Rightarrow> error + val dict dict" where
  "scan_devices drv ids = scan_loop drv ids []"

definition scan_devices_by_ids :: "driver \<Rightarrow> error + val dict dict" where
  "scan_devices_by_ids drv = scan_devices drv [0..255]"

text \<open>
  The elements of a list in the order of their first occurrence; the order of the keys
  of a dictionary that is filled from the list.
\<close>

primrec first_occurrences :: "'a list \<Rightarrow> 'a list" where
  "first_occurrences [] = []"
| "first_occurrences (x # xs) = x # removeAll x (first_occurrences xs)"

text \<open>\<open>[int(i) for i in _ids_str]\<close>: the first text that is no integer raises.\<close>

fun ints_of :: "string list \<Rightarrow> error + int list" where
  "ints_of [] = Inr []"
| "ints_of (s # ss) =
     (case py_int s of
        Inl e \<Rightarrow> Inl e
      | Inr i \<Rightarrow> (case ints_of ss of Inl e \<Rightarrow> Inl e | Inr is \<Rightarrow> Inr (i # is)))"

text \<open>\<open>_scan_devices_by_file\<close>, given the array of texts the ids file holds.\<close>

definition scan_devices_by_file :: "driver \<Rightarrow> string list \<Rightarrow> error + val dict dict" where
  "scan_devices_by_file drv ids_str =
     (case ints_of ids_str of Inl e \<Rightarrow> Inl e | Inr ids \<Rightarrow> scan_devices drv ids)"

text \<open>
  The list \<open>sensosys_devices_list\<close> that \<open>__init__\<close> derives from the scan result,
  in the order of its items; \<open>v['instrument_name']\<close> raises \<open>KeyError\<close> on a record
  without the key.
\<close>

fun sensosys_devices_list :: "val dict dict \<Rightarrow> error + device list" where
  "sensosys_devices_list [] = Inr []"
| "sensosys_devices_list ((k, v) # kvs) =
     (case map_of v ''instrument_name'' of
        None \<Rightarrow> Inl KeyError
      | Some name \<Rightarrow>
          (case sensosys_devices_list kvs of
             Inl e \<Rightarrow> Inl e
           | Inr ds \<Rightarrow> Inr ((k, name, dict_get v ''sensor_config'') # ds)))"

text \<open>
  A condition on the answers of the driver at an address: none of the attribute reads
  of the scan that follow the identity query answers with an \<open>instrument_name\<close>
  entry. The record of a device is the identity response updated in place by these
  answers, so an answer with such an entry replaces the name the scan has tested.
\<close>

definition lacks_instrument_name :: "val dict option \<Rightarrow> bool" where
  "lacks_instrument_name x =
     (case x of None \<Rightarrow> True | Some r \<Rightarrow> ''instrument_name'' \<notin> set (dict_keys r))"

definition reads_keep_name :: "driver \<Rightarrow> int \<Rightarrow> bool" where
  "reads_keep_name drv dev_id =
     (lacks_instrument_name (read_serial_number drv dev_id) \<and>
      lacks_instrument_name (read_expired_calibration_date drv dev_id) \<and>
      lacks_instrument_name (read_battery_state drv dev_id) \<and>
      lacks_instrument_name (senso_anemo_read_configuration drv dev_id) \<and>
      lacks_instrument_name (senso_anemo_read_indicator drv dev_id) \<and>
      lacks_instrument_name (senso_therm_read_configuration drv dev_id) \<and>
      lacks_instrument_name (senso_hygbar_read_configuration drv dev_id))"

section \<open>The configuration resolver\<close>

text \<open>The class attribute \<open>_sensosys_configs_default\<close>.\<close>

definition sensosys_configs_default :: "val dict" where
  "sensosys_configs_default =
     [(''port'', VStr ''COM1''), (''scan_by_file'', VBool False), (''time_out'', VNum (5 / 100))]"

text \<open>
  \<open>_get_sensosys_configs_by_file\<close>. The file system is a function from a file name
  to the JSON object stored there (\<open>None\<close> when \<open>os.path.isfile\<close> is false);
  the object is a dictionary, so its keys are distinct. The function returns what it
  logs, its result and the new \<open>self.sensosys_configs\<close>.
\<close>

definition get_sensosys_configs_by_file ::
  "(string \<Rightarrow> val dict option) \<Rightarrow> val dict \<Rightarrow> string \<Rightarrow> event list \<times> bool \<times> val dict" where
  "get_sensosys_configs_by_file files sensosys_configs file_name =
     (case files file_name of
        Some configs \<Rightarrow>
          if set (dict_keys configs) = set (dict_keys sensosys_configs)
          then ([], True, dict_update sensosys_configs configs)
          else ([Log ''SensoSys'' ERROR
                   (''Some keys in file '' @ file_name @ '' are invalid or incomplete'')],
                False, sensosys_configs)
      | None \<Rightarrow>
          ([Log ''SensoSys'' ERROR (''Invalid file name '' @ file_name)], False, sensosys_configs))"

section \<open>The process: \<open>__init__\<close> and the main block\<close>

text \<open>
  A step of the process ends by returning a value, by \<open>sys.exit\<close> (with its
  argument, \<open>None\<close> for a call without one) or by an exception nobody catches; with
  it comes what the step has traced. \<open>exit_status\<close> is the exit status the operating
  system sees: the argument of \<open>sys.exit\<close>, 0 for \<open>sys.exit()\<close>, and 1 after an
  uncaught exception; \<open>None\<close> while the process goes on.
\<close>

datatype 'a outcome = Return 'a | Exit "int option" | Raise error

type_synonym 'a proc = "event list \<times> 'a outcome"

definition seq :: "'a proc \<Rightarrow> ('a \<Rightarrow> 'b proc) \<Rightarrow> 'b proc" where
  "seq p f =
     (case p of
        (l, Return x) \<Rightarrow> (case f x of (l', r) \<Rightarrow> (l @ l', r))
      | (l, Exit c) \<Rightarrow> (l, Exit c)
      | (l, Raise e) \<Rightarrow> (l, Raise e))"

definition lift :: "error + 'a \<Rightarrow> 'a proc" where
  "lift r = (case r of Inl e \<Rightarrow> ([], Raise e) | Inr x \<Rightarrow> ([], Return x))"

definition exit_status :: "'a outcome \<Rightarrow> int option" where
  "exit_status r =
     (case r of
        Return x \<Rightarrow> None
      | Exit None \<Rightarrow> Some 0
      | Exit (Some c) \<Rightarrow> Some c
      | Raise e \<Rightarrow> Some 1)"

text \<open>
  What the process finds around it: the COM ports the driver module enumerates
  (\<open>None\<close> when it finds none), what the user types at each of the four prompts
  (each is asked at most once in a run), whether a path exists, the JSON objects of the
  configuration files, the array of texts in the ids file
  \<open>_config/SensoSysAllDevicesIDs_default.json\<close>, and the driver that
  \<open>SensoSysDevices.SensoSys(port, time_out)\<close> constructs (or the exception it raises).
\<close>

record environment =
  scan_com_ports :: "string list option"
  answer_devmgmt :: string
  answer_port :: string
  answer_scan_by_file :: string
  answer_continue :: string
  path_exists :: "string \<Rightarrow> bool"
  config_files :: "string \<Rightarrow> val dict option"
  ids_file :: "string list"
  SensoSys :: "val \<Rightarrow> val \<Rightarrow> error + driver"

definition lower_char :: "char \<Rightarrow> char" where
  "lower_char c =
     (case map_of (zip ''ABCDEFGHIJKLMNOPQRSTUVWXYZ'' ''abcdefghijklmnopqrstuvwxyz'') c of
        None \<Rightarrow> c
      | Some l \<Rightarrow> l)"

definition lower :: "string \<Rightarrow> string" where
  "lower s = map lower_char s"

definition sq :: string where
  "sq = [CHR 0x27]"

text \<open>The error records the process logs before it exits.\<close>

definition invalid_input_error :: "string \<Rightarrow> event" where
  "invalid_input_error input_str =
     Log ''SensoSys'' ERROR
       (''Invalid input '' @ sq @ input_str @ sq @
        '', it can only be '' @ sq @ ''y'' @ sq @ '' or '' @ sq @ ''n'' @ sq @ '', exiting ...'')"

definition port_unavailable_error :: "string \<Rightarrow> event" where
  "port_unavailable_error port =
     Log ''SensoSys'' ERROR (''The COM port '' @ sq @ port @ sq @ '' is unavailable, exiting ...'')"

definition no_ports_error :: event where
  "no_ports_error = Log ''root'' ERROR ''No available ports found, exiting ...''"

definition no_devices_error :: event where
  "no_devices_error =
     Log ''SensoSys'' ERROR ''No devices found, please check the connection, exiting ...''"

text \<open>
  The three yes/no prompts \<open>_get_if_pop_system_device_management\<close>,
  \<open>_get_scan_by_file\<close> and \<open>_get_if_continue\<close> have the same body, here
  \<open>yes_no\<close> of what the user typed.
\<close>

definition yes_no :: "string \<Rightarrow> bool proc" where
  "yes_no typed =
     (let input_str = strip (lower typed)
      in if input_str = ''y'' then ([], Return True)
         else if input_str = ''n'' then ([], Return False)
         else ([invalid_input_error input_str], Exit (Some 1)))"

definition get_if_pop_system_device_management :: "environment \<Rightarrow> bool proc" where
  "get_if_pop_system_device_management env = yes_no (answer_devmgmt env)"

definition get_scan_by_file :: "environment \<Rightarrow> bool proc" where
  "get_scan_by_file env = yes_no (answer_scan_by_file env)"

definition get_if_continue :: "environment \<Rightarrow> bool proc" where
  "get_if_continue env = yes_no (answer_continue env)"

definition get_port_name :: "environment \<Rightarrow> string" where
  "get_port_name env = ''COM'' @ answer_port env"

text \<open>\<open>_scan_available_ports\<close>; its error goes to the root logger, and its
  \<open>sys.exit()\<close> has no argument.\<close>

definition scan_available_ports :: "environment \<Rightarrow> string list proc" where
  "scan_available_ports env =
     (case scan_com_ports env of
        None \<Rightarrow> ([no_ports_error], Exit None)
      | Some available_ports \<Rightarrow> ([], Return available_ports))"

text \<open>
  \<open>_get_sensosys_configs_by_guide\<close>: it returns its result and the new
  \<open>self.sensosys_configs\<close>. \<open>_check_port_name\<close> is the membership test.
\<close>

definition get_sensosys_configs_by_guide ::
  "environment \<Rightarrow> string option \<Rightarrow> string list \<Rightarrow> val dict \<Rightarrow> (bool \<times> val dict) proc" where
  "get_sensosys_configs_by_guide env output_dir available_ports sensosys_configs =
     seq (get_if_pop_system_device_management env) (\<lambda>pop_devmgmt.
     seq ((if pop_devmgmt then [PopDeviceManagement] else []), Return ()) (\<lambda>u.
       let configs1 = AList.update ''port'' (VStr (get_port_name env)) sensosys_configs
       in if get_port_name env \<in> set available_ports then
            seq (get_scan_by_file env) (\<lambda>scan_by_file.
              let configs2 = AList.update ''scan_by_file'' (VBool scan_by_file) configs1
              in ((case output_dir of
                     None \<Rightarrow> []
                   | Some d \<Rightarrow> [DumpJson d ''SensoSysConfigs.json'']),
                  Return (True, configs2)))
          else ([port_unavailable_error (get_port_name env)], Exit (Some 1))))"

text \<open>
  The first part of \<open>__init__\<close>, up to the configuration (lines 47 to 80): the output
  directory, the default configuration, the available ports, and the configuration by
  guide or by file. It returns \<open>self.sensosys_configs\<close>.
\<close>

definition resolve_configs :: "environment \<Rightarrow> string option \<Rightarrow> string option \<Rightarrow> val dict proc" where
  "resolve_configs env sensosys_config_file output_dir =
     seq ((case output_dir of
             None \<Rightarrow> []
           | Some d \<Rightarrow> if path_exists env d then [] else [MakeDirs d]), Return ()) (\<lambda>u.
     seq (scan_available_ports env) (\<lambda>available_ports.
       (case sensosys_config_file of
          None \<Rightarrow>
            seq (get_sensosys_configs_by_guide env output_dir available_ports
                   sensosys_configs_default) (\<lambda>(succeed, configs).
              ((if succeed then []
                else [Log ''SensoSys'' WARNING
                        ''Failed to update SensoSys configurations by user guide, using default values ...'']),
               Return configs))
        | Some file_name \<Rightarrow>
            (case get_sensosys_configs_by_file (config_files env) sensosys_configs_default file_name of
               (l, succeed, configs) \<Rightarrow>
                 (l @ (if succeed then []
                       else [Log ''SensoSys'' WARNING
                               ''Failed to update SensoSys configurations by file, using default values ...'']),
                  Return configs)))))"

text \<open>\<open>d[k]\<close>, and the truth value of a value in a condition.\<close>

definition dict_item :: "val dict \<Rightarrow> string \<Rightarrow> error + val" where
  "dict_item d k = (case map_of d k of None \<Rightarrow> Inl KeyError | Some v \<Rightarrow> Inr v)"

fun truthy :: "val \<Rightarrow> bool" where
  "truthy VNone = False"
| "truthy (VBool b) = b"
| "truthy (VNum n) = (n \<noteq> 0)"
| "truthy (VStr s) = (s \<noteq> [])"

text \<open>The object \<open>__init__\<close> leaves behind.\<close>

record data_source =
  sensosys_configs :: "val dict"
  sensosys :: driver
  sensosys_devices :: "val dict dict"
  devices_list :: "device list"

text \<open>The construction of the driver (lines 82 to 87) and the scan (lines 89 to 93).\<close>

definition init_sensosys :: "environment \<Rightarrow> val dict \<Rightarrow> error + driver" where
  "init_sensosys env configs =
     and_then (dict_item configs ''port'') (\<lambda>port.
     and_then (dict_item configs ''time_out'') (\<lambda>time_out. SensoSys env port time_out))"

definition scan_by_configs :: "environment \<Rightarrow> val dict \<Rightarrow> driver \<Rightarrow> error + val dict dict" where
  "scan_by_configs env configs drv =
     and_then (dict_item configs ''scan_by_file'') (\<lambda>scan_by_file.
       if truthy scan_by_file then scan_devices_by_file drv (ids_file env)
       else scan_devices_by_ids drv)"

text \<open>\<open>__init__\<close>.\<close>

definition init :: "environment \<Rightarrow> string option \<Rightarrow> string option \<Rightarrow> data_source proc" where
  "init env sensosys_config_file output_dir =
     seq (resolve_configs env sensosys_config_file output_dir) (\<lambda>configs.
     seq (lift (init_sensosys env configs)) (\<lambda>drv.
     seq (lift (scan_by_configs env configs drv)) (\<lambda>devices.
       if length devices = 0 then
         ([no_devices_error], Exit (Some 0))
       else
         seq (get_if_continue env) (\<lambda>continue.
           if continue then
             seq ((case output_dir of
                     None \<Rightarrow> []
                   | Some d \<Rightarrow> [DumpJson d ''FoundDevices.json'']), Return ()) (\<lambda>u.
             seq (lift (sensosys_devices_list devices)) (\<lambda>dl.
               ([], Return \<lparr>sensosys_configs = configs, sensosys = drv,
                              sensosys_devices = devices, devices_list = dl\<rparr>)))
           else ([], Exit (Some 0))))))"

text \<open>
  The main block up to the header list: the data source is built with the guided
  configuration and the output directory \<open>Test\<close>, then the headers are computed and
  handed to the data logger, which writes the CSV header.
\<close>

definition main_block :: "environment \<Rightarrow> data_source proc" where
  "main_block env =
     seq (init env None (Some ''Test'')) (\<lambda>senso_sys_source.
     seq (lift (get_all_measurement_parameters (sensosys senso_sys_source)
                  (devices_list senso_sys_source))) (\<lambda>headers.
       ([Headers headers], Return senso_sys_source)))"

definition is_headers :: "event \<Rightarrow> bool" where
  "is_headers e = (case e of Headers h \<Rightarrow> True | _ \<Rightarrow> False)"

text \<open>
  The exit codes as the specification lists them, with the cause of each: an exit with
  code \<open>c\<close> after the trace \<open>l\<close> is either the exit without argument after the
  error that no COM port is available, or code 1 after the error for an answer that is
  neither \<open>y\<close> nor \<open>n\<close> or for an unavailable port, or code 0 after the error
  that no device was found or on the answer \<open>n\<close> to the continue prompt.
\<close>

definition exit_cause :: "environment \<Rightarrow> event list \<Rightarrow> int option \<Rightarrow> bool" where
  "exit_cause env l c =
     ((c = None \<and> scan_com_ports env = None \<and> l \<noteq> [] \<and> last l = no_ports_error) \<or>
      (c = Some 1 \<and> l \<noteq> [] \<and>
         list_ex (\<lambda>typed. strip (lower typed) \<noteq> ''y'' \<and> strip (lower typed) \<noteq> ''n'' \<and>
                     last l = invalid_input_error (strip (lower typed)))
           [answer_devmgmt env, answer_scan_by_file env, answer_continue env]) \<or>
      (c = Some 1 \<and> l \<noteq> [] \<and> last l = port_unavailable_error (get_port_name env) \<and>
         (case scan_com_ports env of
            None \<Rightarrow> False
          | Some available_ports \<Rightarrow> get_port_name env \<notin> set available_ports)) \<or>
      (c = Some 0 \<and> l \<noteq> [] \<and> last l = no_devices_error) \<or>
      (c = Some 0 \<and> strip (lower (answer_continue env)) = ''n''))"

section \<open>Concrete inputs\<close>

text \<open>
  A bus with an anemometer at address 5, a thermometer at 12 that has stopped answering
  measurement reads, a hygrometer/barometer of variant 1 at 200, and an instrument of
  an unknown family at 300.
\<close>

definition demo_driver :: driver where
  "demo_driver =
     \<lparr>read_instrument_name =
        (\<lambda>i. if i = 5 then Some [(''instrument_name'', VStr ''Anemo-X '')]
             else if i = 12 then Some [(''instrument_name'', VStr ''therm-1'')]
             else if i = 200 then Some [(''instrument_name'', VStr ''HygroBar'')]
             else if i = 300 then Some [(''instrument_name'', VStr ''baro-9'')]
             else None),
      read_serial_number = (\<lambda>i. Some [(''serial_number'', VStr (py_str (1000 + i)))]),
      read_expired_calibration_date =
        (\<lambda>i. Some [(''calibration_expired_date'',
                      VStr (if i = 5 then ''05-03-24'' else if i = 12 then ''31.12.99'' else ''n/a''))]),
      read_battery_state = (\<lambda>i. Some [(''battery_state'', VNum 1)]),
      senso_anemo_read_configuration = (\<lambda>i. Some [(''senso_anemo_configuration'', VNum 0)]),
      senso_anemo_read_indicator = (\<lambda>i. Some [(''senso_anemo_indicator'', VNum 0)]),
      senso_therm_read_configuration = (\<lambda>i. Some [(''senso_therm_configuration'', VNum 0)]),
      senso_therm_read_indicator = (\<lambda>i ch. Some [(''senso_therm_indicator'', VNum (of_int ch))]),
      senso_hygbar_read_configuration = (\<lambda>i. Some [(''sensor_config'', VNum 1)]),
      senso_anemo_read_measurement_data =
        (\<lambda>i. if i = 5 then Some [(''t_a'', VNum 21), (''v'', VNum 2), (''v_star'', VNum 3)] else None),
      senso_therm_read_temperatures_enabled_channels = (\<lambda>i. None),
      senso_hygbar_read_measurement_data =
        (\<lambda>i c. if i = 200 then Some [(''rh'', VNum 40), (''p'', VNum 1013)] else None),
      senso_hygbar_sensor_config =
        (\<lambda>c. if c = VNum 1 then Some [''rh'', ''t_a'', ''p''] else None)\<rparr>"

definition demo_devices :: "device list" where
  "demo_devices =
     [(''5'', VStr ''ANEMO-X'', VNone), (''12'', VStr ''THERM-1'', VNone),
      (''200'', VStr ''HYGROBAR'', VNum 1)]"

text \<open>Two configuration files: a complete one, and one without \<open>time_out\<close>.\<close>

definition demo_files :: "string \<Rightarrow> val dict option" where
  "demo_files f =
     (if f = ''a.json''
      then Some [(''time_out'', VNum 2), (''port'', VStr ''COM7''), (''scan_by_file'', VBool True)]
      else if f = ''b.json''
      then Some [(''port'', VStr ''COM7''), (''scan_by_file'', VBool True)]
      else None)"

text \<open>
  A run at the console: one COM port, the user declines the device manager, names port
  3, scans the full range and goes on after the scan. \<open>silent_driver\<close> is a bus on
  which no address answers.
\<close>

definition demo_env :: environment where
  "demo_env =
     \<lparr>scan_com_ports = Some [''COM3''],
      answer_devmgmt = ''n'', answer_port = ''3'', answer_scan_by_file = '' N'',
      answer_continue = ''y'',
      path_exists = (\<lambda>p. False), config_files = demo_files, ids_file = [''12'', ''5''],
      SensoSys = (\<lambda>port time_out. Inr demo_driver)\<rparr>"

definition silent_driver :: driver where
  "silent_driver = demo_driver\<lparr>read_instrument_name := (\<lambda>i. None)\<rparr>"

text \<open>
  A driver whose serial number read answers with an \<open>instrument_name\<close> entry of
  its own.
\<close>

definition renaming_driver :: driver where
  "renaming_driver =
     demo_driver\<lparr>read_serial_number :=
       (\<lambda>i. Some [(''serial_number'', VStr ''1005''), (''instrument_name'', VStr ''sn-1005'')])\<rparr>"

section \<open>Properties\<close>

subsection \<open>Decimal text of integers\<close>

lemma digit_char_props:
  assumes "n < 10"
  shows "is_digit (digit_char n)" "digit_val (digit_char n) = n"
        "\<not> is_space (digit_char n)" "digit_char n \<noteq> CHR ''_''"
        "digit_char n \<noteq> CHR ''-''" "digit_char n \<noteq> CHR ''+''"
        "\<not> is_int_space (digit_char n)"
proof -
  from assms have "n \<in> {0, 1, 2, 3, 4, 5, 6, 7, 8, 9}" by auto
  then show "is_digit (digit_char n)" "digit_val (digit_char n) = n"
        "\<not> is_space (digit_char n)" "digit_char n \<noteq> CHR ''_''"
        "digit_char n \<noteq> CHR ''-''" "digit_char n \<noteq> CHR ''+''"
        "\<not> is_int_space (digit_char n)"
    by (auto simp: is_digit_def digit_char_def digit_val_def is_space_def is_int_space_def)
qed

lemma is_digit_props:
  assumes "is_digit c"
  shows "\<not> is_space c" "c \<noteq> CHR ''_''" "c \<noteq> CHR ''-''" "c \<noteq> CHR ''+''"
        "digit_char (digit_val c) = c" "digit_val c < 10" "\<not> is_int_space c"
  using assms
  by (auto simp: is_digit_def digit_char_def digit_val_def is_space_def is_int_space_def)

lemma str_nat_digits: "list_all is_digit (str_nat n)"
  by (induction n rule: str_nat.induct) (subst str_nat.simps, simp add: digit_char_props)

lemma str_nat_nonempty: "str_nat n \<noteq> []"
  by (subst str_nat.simps) simp

lemma digits_val_snoc: "digits_val (ds @ [c]) = 10 * digits_val ds + digit_val c"
  by (simp add: digits_val_def)

lemma digits_val_str_nat: "digits_val (str_nat n) = n"
proof (induction n rule: str_nat.induct)
  case (1 n)
  show ?case
  proof (cases "n < 10")
    case True
    then show ?thesis
      by (subst str_nat.simps) (simp add: digits_val_def digit_char_props)
  next
    case False
    with 1 show ?thesis
      by (subst str_nat.simps) (simp add: digits_val_snoc digit_char_props)
  qed
qed

lemma strip_id:
  assumes "s \<noteq> []" "\<not> is_space (hd s)" "\<not> is_space (last s)"
  shows "strip s = s"
proof -
  from assms have a: "dropWhile is_space s = s"
    by (cases s) auto
  from assms have "rev s \<noteq> []" "\<not> is_space (hd (rev s))"
    by (auto simp: hd_rev)
  then have "dropWhile is_space (rev s) = rev s"
    by (cases "rev s") auto
  with a show ?thesis
    by (simp add: strip_def)
qed

lemma int_strip_id:
  assumes "s \<noteq> []" "\<not> is_int_space (hd s)" "\<not> is_int_space (last s)"
  shows "int_strip s = s"
proof -
  from assms have a: "dropWhile is_int_space s = s"
    by (cases s) auto
  from assms have "rev s \<noteq> []" "\<not> is_int_space (hd (rev s))"
    by (auto simp: hd_rev)
  then have "dropWhile is_int_space (rev s) = rev s"
    by (cases "rev s") auto
  with a show ?thesis
    by (simp add: int_strip_def)
qed

lemma no_double_underscore_digits:
  "list_all (\<lambda>c. c \<noteq> CHR ''_'') s \<Longrightarrow> no_double_underscore s"
  by (induction s rule: no_double_underscore.induct) auto

lemma digits_body_ok:
  assumes "s \<noteq> []" "list_all is_digit s"
  shows "int_body_ok s" "filter (\<lambda>c. c \<noteq> CHR ''_'') s = s"
proof -
  from assms(2) have nu: "list_all (\<lambda>c. c \<noteq> CHR ''_'') s"
    by (auto simp: list_all_iff is_digit_props)
  from assms have "is_digit (hd s)" "is_digit (last s)"
    by (auto simp: list_all_iff)
  with assms nu show "int_body_ok s"
    by (auto simp: int_body_ok_def no_double_underscore_digits is_digit_props list_all_iff)
  from nu show "filter (\<lambda>c. c \<noteq> CHR ''_'') s = s"
    by (auto simp: list_all_iff)
qed

lemma py_int_digits:
  assumes "s \<noteq> []" "list_all is_digit s"
  shows "py_int s = Inr (int (digits_val s))"
proof -
  from assms have d: "is_digit (hd s)" "is_digit (last s)"
    by (auto simp: list_all_iff)
  then have "int_strip s = s"
    using assms(1) by (intro int_strip_id) (auto simp: is_digit_props)
  with assms d show ?thesis
    by (auto simp: py_int_def Let_def digits_body_ok is_digit_props)
qed

lemma py_int_minus_digits:
  assumes "s \<noteq> []" "list_all is_digit s"
  shows "py_int (CHR ''-'' # s) = Inr (- int (digits_val s))"
proof -
  from assms have d: "is_digit (last s)"
    by (auto simp: list_all_iff)
  from d have "\<not> is_int_space (last s)"
    by (simp add: is_digit_props)
  moreover have "\<not> is_int_space CHR ''-''"
    by (simp add: is_int_space_def)
  ultimately have "int_strip (CHR ''-'' # s) = CHR ''-'' # s"
    using assms(1) by (intro int_strip_id) auto
  with assms show ?thesis
    by (auto simp: py_int_def Let_def digits_body_ok)
qed

lemma py_int_py_str: "py_int (py_str i) = Inr i"
  by (simp add: py_str_def py_int_digits py_int_minus_digits str_nat_nonempty str_nat_digits
      digits_val_str_nat)

lemma py_str_inj: "py_str i = py_str j \<Longrightarrow> i = j"
  by (metis py_int_py_str sum.inject(2))

subsection \<open>The measurement reader\<close>

lemma device_params_data:
  assumes "\<not> isl (py_int (fst d))"
  shows "rel_sum (=) (\<lambda>ps (vs, l). length ps = length vs) (device_params drv d) (device_data drv d)"
  using assms
  by (auto simp: device_params_def device_data_def split: prod.splits sum.splits val.splits option.splits)

lemma loops_aligned:
  assumes "list_all (\<lambda>d. \<not> isl (py_int (fst d))) ds"
  shows "rel_sum (=)
     (\<lambda>hdr (row, lg). \<exists>hs vs. hdr = acc_h @ concat hs \<and> row = acc_d @ concat vs \<and>
         list_all2 (\<lambda>h v. length h = length v) hs vs \<and>
         list_all2 (\<lambda>d h. device_params drv d = Inr h) ds hs \<and>
         list_all2 (\<lambda>d v. \<exists>l. device_data drv d = Inr (v, l)) ds vs)
     (get_all_loop drv ds acc_h) (read_data_loop drv ds acc_d lg)"
  using assms
proof (induction ds arbitrary: acc_h acc_d lg)
  case Nil
  then show ?case by simp
next
  case (Cons d ds)
  then have ok: "\<not> isl (py_int (fst d))" and rest: "list_all (\<lambda>d. \<not> isl (py_int (fst d))) ds"
    by simp_all
  show ?case
  proof (cases "device_params drv d")
    case (Inl e)
    with device_params_data [OF ok, of drv] have "device_data drv d = Inl e"
      by (cases "device_data drv d") auto
    with Inl show ?thesis by simp
  next
    case (Inr ps)
    with device_params_data [OF ok, of drv] obtain vs l
      where dd: "device_data drv d = Inr (vs, l)" and len: "length ps = length vs"
      by (cases "device_data drv d") auto
    from Cons.IH [OF rest, of "acc_h @ ps" "acc_d @ vs" "lg @ l"]
    show ?thesis
      unfolding get_all_loop.simps read_data_loop.simps Inr dd sum.case prod.case
    proof (rule sum.rel_mono_strong)
      fix hdr rowlg
      assume "case rowlg of (row, lg) \<Rightarrow> \<exists>hs vs'. hdr = (acc_h @ ps) @ concat hs \<and> row = (acc_d @ vs) @ concat vs' \<and>
         list_all2 (\<lambda>h v. length h = length v) hs vs' \<and>
         list_all2 (\<lambda>d h. device_params drv d = Inr h) ds hs \<and>
         list_all2 (\<lambda>d v. \<exists>l. device_data drv d = Inr (v, l)) ds vs'"
      then obtain row lg' hs vs' where r: "rowlg = (row, lg')"
        "hdr = (acc_h @ ps) @ concat hs" "row = (acc_d @ vs) @ concat vs'"
        "list_all2 (\<lambda>h v. length h = length v) hs vs'"
        "list_all2 (\<lambda>d h. device_params drv d = Inr h) ds hs"
        "list_all2 (\<lambda>d v. \<exists>l. device_data drv d = Inr (v, l)) ds vs'"
        by (cases rowlg) auto
      show "case rowlg of (row, lg) \<Rightarrow> \<exists>hs vs. hdr = acc_h @ concat hs \<and> row = acc_d @ concat vs \<and>
         list_all2 (\<lambda>h v. length h = length v) hs vs \<and>
         list_all2 (\<lambda>d h. device_params drv d = Inr h) (d # ds) hs \<and>
         list_all2 (\<lambda>d v. \<exists>l. device_data drv d = Inr (v, l)) (d # ds) vs"
        unfolding r prod.case
        by (rule exI [of _ "ps # hs"], rule exI [of _ "vs # vs'"]) (use r Inr dd len in simp)
    qed simp
  qed
qed


lemma demo_keys:
  "py_int ''5'' = Inr 5" "py_int ''12'' = Inr 12" "py_int ''200'' = Inr 200"
  using py_int_py_str [of 5] py_int_py_str [of 12] py_int_py_str [of 200]
  by (simp_all add: py_str_def str_nat.simps digit_char_def)

lemma zip_map_same: "zip (map f xs) (map g xs) = map (\<lambda>x. (f x, g x)) xs"
  by (induction xs) simp_all

lemma zip_map_none: "zip (map f xs) (map (\<lambda>_. v) [0..<length xs]) = map (\<lambda>x. (f x, v)) xs"
proof -
  have "map (\<lambda>_. v) [0..<length xs] = map (\<lambda>_. v) xs"
    by (simp add: map_replicate_const)
  then show ?thesis
    by (simp add: zip_map_same)
qed

lemma device_pairs:
  assumes "device_params drv d = Inr ps" "device_data drv d = Inr (vs, l)"
  shows "zip ps vs = aligned_pairs drv d"
proof -
  obtain k name c where d: "d = (k, name, c)" by (cases d)
  from assms(2) obtain i where i: "py_int k = Inr i"
    by (cases "py_int k") (simp_all add: device_data_def d)
  from assms(1) obtain n where n: "name = VStr n"
    by (cases name) (simp_all add: device_params_def d)
  from assms have "device_params drv (k, VStr n, c) = Inr ps"
    "device_data drv (k, VStr n, c) = Inr (vs, l)"
    by (simp_all add: d n)
  then have "zip ps vs = aligned_pairs drv (k, VStr n, c)"
    by (auto simp: device_params_def device_data_def aligned_pairs_def i reading_def
        zip_map_same zip_map_none split: if_splits option.splits)
  then show ?thesis
    by (simp add: d n)
qed

lemma blocks_pairs:
  assumes "list_all2 (\<lambda>h v. length h = length v) hs vs"
    and "list_all2 (\<lambda>d h. device_params drv d = Inr h) devs hs"
    and "list_all2 (\<lambda>d v. \<exists>l. device_data drv d = Inr (v, l)) devs vs"
  shows "zip (concat hs) (concat vs) = concat (map (aligned_pairs drv) devs)"
  using assms
proof (induction devs arbitrary: hs vs)
  case Nil
  then show ?case by simp
next
  case (Cons d devs)
  from Cons.prems(2) obtain h hs' where hs: "hs = h # hs'" "device_params drv d = Inr h"
    "list_all2 (\<lambda>d h. device_params drv d = Inr h) devs hs'"
    by (auto simp: list_all2_Cons1)
  from Cons.prems(3) obtain v vs' l where vs: "vs = v # vs'" "device_data drv d = Inr (v, l)"
    "list_all2 (\<lambda>d v. \<exists>l. device_data drv d = Inr (v, l)) devs vs'"
    by (auto simp: list_all2_Cons1)
  from Cons.prems(1) hs(1) vs(1) have len: "length h = length v"
    "list_all2 (\<lambda>h v. length h = length v) hs' vs'"
    by simp_all
  from Cons.IH [OF len(2) hs(3) vs(3)] device_pairs [OF hs(2) vs(2)] len(1)
  show ?case
    by (simp add: hs(1) vs(1))
qed

text \<open>
  C1: for a device list whose keys are texts of integers (as the keys of a scan result
  are), the header list and the data row either both fail, with the same error, or both
  succeed; then they have the same length, and pairing them position by position gives,
  device by device in list order, each parameter name with the reading of that parameter
  in the answer of that device (\<open>aligned_pairs\<close>): position \<open>i\<close> of the row is the
  value of the parameter named at position \<open>i\<close> of the header. Both lists are the
  concatenation of per-device blocks of pairwise equal length.
\<close>

theorem header_matches_row:
  assumes "list_all (\<lambda>d. \<not> isl (py_int (fst d))) devs"
  shows "rel_sum (=)
     (\<lambda>hdr (row, lg). length hdr = length row \<and>
        zip hdr row = concat (map (aligned_pairs drv) devs) \<and>
        (\<exists>hs vs. hdr = concat hs \<and> row = concat vs \<and>
           list_all2 (\<lambda>h v. length h = length v) hs vs \<and>
           list_all2 (\<lambda>d h. device_params drv d = Inr h) devs hs \<and>
           list_all2 (\<lambda>d v. \<exists>l. device_data drv d = Inr (v, l)) devs vs))
     (get_all_measurement_parameters drv devs) (read_data drv devs)"
proof -
  have len: "length (concat hs) = length (concat vs)"
    if "list_all2 (\<lambda>h v. length h = length v) hs vs" for hs :: "string list list" and vs :: "val list list"
    using that by (induction rule: list_all2_induct) simp_all
  from loops_aligned [OF assms, of "[]" "[]" drv "[]"]
  show ?thesis
    unfolding get_all_measurement_parameters_def read_data_def
    by (rule sum.rel_mono_strong) (auto simp: len blocks_pairs)
qed

theorem header_matches_row_witness:
  "list_all (\<lambda>d. \<not> isl (py_int (fst d))) demo_devices \<and>
   get_all_measurement_parameters demo_driver demo_devices =
     Inr [''t_a_5'', ''v_5'', ''vstar_5'', ''t_a_12'', ''t_g_12'', ''t_w_12'', ''t_s_12'',
          ''rh_200'', ''t_a_200'', ''p_200''] \<and>
   (\<exists>row lg. read_data demo_driver demo_devices = Inr (row, lg) \<and> length row = 10 \<and>
      zip [''t_a_5'', ''v_5'', ''vstar_5'', ''t_a_12'', ''t_g_12'', ''t_w_12'', ''t_s_12'',
           ''rh_200'', ''t_a_200'', ''p_200''] row =
        [(''t_a_5'', VNum 21), (''v_5'', VNum 2), (''vstar_5'', VNum 3),
         (''t_a_12'', VNone), (''t_g_12'', VNone), (''t_w_12'', VNone), (''t_s_12'', VNone),
         (''rh_200'', VNum 40), (''t_a_200'', VNone), (''p_200'', VNum 1013)])"
proof -
  have ok: "list_all (\<lambda>d. \<not> isl (py_int (fst d))) demo_devices"
    by (simp add: demo_devices_def demo_keys)
  have hdr: "get_all_measurement_parameters demo_driver demo_devices =
     Inr [''t_a_5'', ''v_5'', ''vstar_5'', ''t_a_12'', ''t_g_12'', ''t_w_12'', ''t_s_12'',
          ''rh_200'', ''t_a_200'', ''p_200'']"
    by (simp add: get_all_measurement_parameters_def demo_devices_def device_params_def
        startswith_def demo_driver_def)
  have pairs: "concat (map (aligned_pairs demo_driver) demo_devices) =
        [(''t_a_5'', VNum 21), (''v_5'', VNum 2), (''vstar_5'', VNum 3),
         (''t_a_12'', VNone), (''t_g_12'', VNone), (''t_w_12'', VNone), (''t_s_12'', VNone),
         (''rh_200'', VNum 40), (''t_a_200'', VNone), (''p_200'', VNum 1013)]"
    by (simp add: aligned_pairs_def demo_devices_def demo_keys startswith_def demo_driver_def
        reading_def dict_get_def)
  from header_matches_row [OF ok, of demo_driver]
  have "\<exists>row lg. read_data demo_driver demo_devices = Inr (row, lg) \<and> length row = 10 \<and>
      zip [''t_a_5'', ''v_5'', ''vstar_5'', ''t_a_12'', ''t_g_12'', ''t_w_12'', ''t_s_12'',
           ''rh_200'', ''t_a_200'', ''p_200''] row =
        [(''t_a_5'', VNum 21), (''v_5'', VNum 2), (''vstar_5'', VNum 3),
         (''t_a_12'', VNone), (''t_g_12'', VNone), (''t_w_12'', VNone), (''t_s_12'', VNone),
         (''rh_200'', VNum 40), (''t_a_200'', VNone), (''p_200'', VNum 1013)]"
    unfolding hdr pairs by (cases "read_data demo_driver demo_devices") auto
  with ok hdr show ?thesis by simp
qed

lemma read_data_loop_append:
  "read_data_loop drv (xs @ ys) acc lg =
     (case read_data_loop drv xs acc lg of
        Inl e \<Rightarrow> Inl e
      | Inr (acc', lg') \<Rightarrow> read_data_loop drv ys acc' lg')"
  by (induction xs arbitrary: acc lg) (auto split: sum.splits)

lemma read_data_loop_acc:
  "read_data_loop drv ds acc lg =
     (case read_data_loop drv ds [] [] of
        Inl e \<Rightarrow> Inl e
      | Inr (row, l) \<Rightarrow> Inr (acc @ row, lg @ l))"
proof (induction ds arbitrary: acc lg)
  case Nil
  show ?case by simp
next
  case (Cons d ds)
  show ?case
  proof (cases "device_data drv d")
    case (Inl e)
    then show ?thesis by simp
  next
    case (Inr p)
    obtain vs l where p: "p = (vs, l)" by (cases p)
    show ?thesis
      using Cons.IH [of "acc @ vs" "lg @ l"] Cons.IH [of vs l]
      by (simp add: Inr p split: sum.splits)
  qed
qed

text \<open>
  C5: a device whose model-specific read gives no response contributes as many \<open>None\<close>
  values as it contributes parameter names (3 for an anemometer, 4 for a thermometer,
  the variant's parameter count for a hygrometer/barometer) and one warning; the cycle
  returns the values of the devices before it, these \<open>None\<close> values, and the values
  of the devices after it.
\<close>

theorem failed_read_is_not_fatal:
  assumes key: "py_int k = Inr i"
    and failed:
      "(startswith n ''ANEMO'' \<and> senso_anemo_read_measurement_data drv i = None \<and> m = 3) \<or>
       (\<not> startswith n ''ANEMO'' \<and> startswith n ''THERM'' \<and>
          senso_therm_read_temperatures_enabled_channels drv i = None \<and> m = 4) \<or>
       (\<not> startswith n ''ANEMO'' \<and> \<not> startswith n ''THERM'' \<and> startswith n ''HYGRO'' \<and>
          senso_hygbar_read_measurement_data drv i c = None \<and>
          senso_hygbar_sensor_config drv c = Some ps \<and> m = length ps)"
    and before: "read_data drv pre = Inr (r1, l1)"
    and after: "read_data drv post = Inr (r2, l2)"
  shows "(\<exists>hs. device_params drv (k, VStr n, c) = Inr hs \<and> length hs = m) \<and>
         device_data drv (k, VStr n, c) = Inr (replicate m VNone, [no_data_warning i n]) \<and>
         read_data drv (pre @ (k, VStr n, c) # post) =
           Inr (r1 @ replicate m VNone @ r2, l1 @ [no_data_warning i n] @ l2)"
proof -
  have rep: "map (\<lambda>_. VNone) [0..<j] = replicate j VNone" for j
    by (simp add: map_replicate_const)
  from key failed have dd:
    "device_data drv (k, VStr n, c) = Inr (replicate m VNone, [no_data_warning i n])"
    by (auto simp: device_data_def rep numeral_3_eq_3 numeral_Bit0)
  from failed have dp: "\<exists>hs. device_params drv (k, VStr n, c) = Inr hs \<and> length hs = m"
    by (auto simp: device_params_def)
  from after have post: "read_data_loop drv post acc lg = Inr (acc @ r2, lg @ l2)" for acc lg
    by (subst read_data_loop_acc) (simp add: read_data_def)
  from before dd post have
    "read_data drv (pre @ (k, VStr n, c) # post) =
       Inr (r1 @ replicate m VNone @ r2, l1 @ [no_data_warning i n] @ l2)"
    by (simp add: read_data_def read_data_loop_append)
  with dd dp show ?thesis by simp
qed

theorem failed_read_is_not_fatal_witness:
  "py_int ''12'' = Inr 12 \<and>
   senso_therm_read_temperatures_enabled_channels demo_driver 12 = None \<and>
   read_data demo_driver demo_devices =
     Inr ([VNum 21, VNum 2, VNum 3] @ replicate 4 VNone @ [VNum 40, VNone, VNum 1013],
          [] @ [no_data_warning 12 ''THERM-1''] @ [])"
proof -
  have before: "read_data demo_driver [(''5'', VStr ''ANEMO-X'', VNone)] = Inr ([VNum 21, VNum 2, VNum 3], [])"
    by (simp add: read_data_def device_data_def demo_keys startswith_def demo_driver_def dict_get_def)
  have after: "read_data demo_driver [(''200'', VStr ''HYGROBAR'', VNum 1)] = Inr ([VNum 40, VNone, VNum 1013], [])"
    by (simp add: read_data_def device_data_def demo_keys startswith_def demo_driver_def dict_get_def)
  have failed:
      "(startswith ''THERM-1'' ''ANEMO'' \<and> senso_anemo_read_measurement_data demo_driver 12 = None \<and> (4::nat) = 3) \<or>
       (\<not> startswith ''THERM-1'' ''ANEMO'' \<and> startswith ''THERM-1'' ''THERM'' \<and>
          senso_therm_read_temperatures_enabled_channels demo_driver 12 = None \<and> (4::nat) = 4) \<or>
       (\<not> startswith ''THERM-1'' ''ANEMO'' \<and> \<not> startswith ''THERM-1'' ''THERM'' \<and> startswith ''THERM-1'' ''HYGRO'' \<and>
          senso_hygbar_read_measurement_data demo_driver 12 VNone = None \<and>
          senso_hygbar_sensor_config demo_driver VNone = Some [] \<and> (4::nat) = length ([] :: string list))"
    by (simp add: startswith_def demo_driver_def)
  from failed_read_is_not_fatal [OF demo_keys(2) failed before after]
  show ?thesis by (simp add: demo_devices_def demo_keys demo_driver_def)
qed

text \<open>
  C8: for the device list \<open>[(5, "ANEMO-X", None)]\<close> the parameters are
  \<open>["t_a_5", "v_5", "vstar_5"]\<close>, and a read cycle in which the anemometer's
  measurement read gives no response yields the row \<open>[None, None, None]\<close>.
\<close>

theorem anemometer_scenario:
  "get_all_measurement_parameters drv [(''5'', VStr ''ANEMO-X'', VNone)] =
     Inr [''t_a_5'', ''v_5'', ''vstar_5''] \<and>
   read_data
     (drv\<lparr>senso_anemo_read_measurement_data := (senso_anemo_read_measurement_data drv)(5 := None)\<rparr>)
     [(''5'', VStr ''ANEMO-X'', VNone)] =
     Inr ([VNone, VNone, VNone],
          [Log ''SensoSys'' WARNING ''No data received from 5 - ANEMO-X ...''])"
proof -
  have "py_int ''5'' = Inr 5"
    using py_int_py_str [of 5] by (simp add: py_str_def str_nat.simps digit_char_def)
  then show ?thesis
    by (simp add: get_all_measurement_parameters_def read_data_def device_params_def
        device_data_def startswith_def no_data_warning_def py_str_def str_nat.simps digit_char_def)
qed

subsection \<open>The configuration resolver\<close>

lemma map_of_dict_update: "map_of (dict_update d e) = map_of d ++ map_of (rev e)"
proof (induction e arbitrary: d)
  case Nil
  show ?case by (simp add: dict_update_def)
next
  case (Cons p e)
  obtain k v where p: "p = (k, v)" by (cases p)
  have "map_of (dict_update d (p # e)) = map_of (dict_update (AList.update k v d) e)"
    by (simp add: dict_update_def p)
  also have "\<dots> = (map_of d)(k \<mapsto> v) ++ map_of (rev e)"
    by (simp only: Cons.IH update_conv')
  also have "\<dots> = map_of d ++ map_of (rev (p # e))"
    by (simp add: p map_add_upd_left fun_eq_iff map_add_def split: option.splits)
  finally show ?case .
qed

lemma map_of_rev_distinct: "distinct (map fst xs) \<Longrightarrow> map_of (rev xs) = map_of xs"
proof (induction xs)
  case Nil
  show ?case by simp
next
  case (Cons p xs)
  then have "map_of (rev xs) (fst p) = None"
    by (simp add: map_of_eq_None_iff)
  with Cons show ?case
    by (auto simp: fun_eq_iff map_add_def split: option.splits)
qed

lemma dict_keys_update: "set (dict_keys (dict_update d e)) = set (dict_keys d) \<union> set (dict_keys e)"
proof -
  have "dom (map_of (dict_update d e)) = dom (map_of d) \<union> dom (map_of (rev e))"
    by (simp add: map_of_dict_update Un_commute)
  then show ?thesis
    by (simp add: dom_map_of_conv_image_fst dict_keys_def)
qed

lemma update_present_keys: "k \<in> fst ` set d \<Longrightarrow> map fst (AList.update k v d) = map fst d"
  by (induction d) auto

lemma dict_update_keys_subset:
  "set (dict_keys e) \<subseteq> set (dict_keys d) \<Longrightarrow> dict_keys (dict_update d e) = dict_keys d"
proof (induction e arbitrary: d)
  case Nil
  show ?case by (simp add: dict_update_def)
next
  case (Cons p e)
  obtain k v where p: "p = (k, v)" by (cases p)
  from Cons.prems have k: "k \<in> fst ` set d"
    by (simp add: p dict_keys_def)
  then have same: "dict_keys (AList.update k v d) = dict_keys d"
    by (simp add: dict_keys_def update_present_keys)
  with Cons.prems have "set (dict_keys e) \<subseteq> set (dict_keys (AList.update k v d))"
    by (simp add: dict_keys_def)
  from Cons.IH [OF this] same show ?case
    by (simp add: dict_update_def p)
qed

lemma dict_update_same_keys:
  assumes "distinct (dict_keys e)" "set (dict_keys e) = set (dict_keys d)"
  shows "map_of (dict_update d e) = map_of e"
proof -
  from assms(1) have r: "map_of (rev e) = map_of e"
    by (simp add: dict_keys_def map_of_rev_distinct)
  have "dom (map_of d) = dom (map_of e)"
    using assms(2) by (simp add: dom_map_of_conv_image_fst dict_keys_def)
  then have "map_of d ++ map_of e = map_of e"
    by (auto simp: fun_eq_iff map_add_def split: option.splits)
  with r show ?thesis
    by (simp add: map_of_dict_update)
qed

text \<open>
  C2: for a configuration file holding a JSON object, the resolver takes the file's
  values exactly when the file's key set is \<open>{port, scan_by_file, time_out}\<close>, the
  default's: then it returns \<open>True\<close> and the configuration equals the file's object
  as a dictionary; for any other key set it logs an error, returns \<open>False\<close> and
  leaves the default configuration as it was.
\<close>

theorem config_file_all_or_nothing:
  assumes "files file_name = Some doc" and "distinct (dict_keys doc)"
  shows "get_sensosys_configs_by_file files sensosys_configs_default file_name =
           (if set (dict_keys doc) = {''port'', ''scan_by_file'', ''time_out''}
            then ([], True, dict_update sensosys_configs_default doc)
            else ([Log ''SensoSys'' ERROR
                    (''Some keys in file '' @ file_name @ '' are invalid or incomplete'')],
                  False, sensosys_configs_default)) \<and>
         (map_of (snd (snd (get_sensosys_configs_by_file files sensosys_configs_default file_name)))
            = map_of doc
          \<longleftrightarrow> set (dict_keys doc) = {''port'', ''scan_by_file'', ''time_out''}) \<and>
         dict_keys (snd (snd (get_sensosys_configs_by_file files sensosys_configs_default file_name)))
            = [''port'', ''scan_by_file'', ''time_out'']"
proof -
  have dk: "set (dict_keys sensosys_configs_default) = {''port'', ''scan_by_file'', ''time_out''}"
    by (auto simp: sensosys_configs_default_def dict_keys_def)
  let ?r = "get_sensosys_configs_by_file files sensosys_configs_default file_name"
  show ?thesis
  proof (cases "set (dict_keys doc) = {''port'', ''scan_by_file'', ''time_out''}")
    case True
    then have r: "?r = ([], True, dict_update sensosys_configs_default doc)"
      by (simp add: get_sensosys_configs_by_file_def assms(1) dk)
    have m: "map_of (dict_update sensosys_configs_default doc) = map_of doc"
      using assms(2) True dk by (intro dict_update_same_keys) simp_all
    have "dict_keys (dict_update sensosys_configs_default doc) = dict_keys sensosys_configs_default"
      using True dk by (intro dict_update_keys_subset) simp
    then have "dict_keys (dict_update sensosys_configs_default doc) = [''port'', ''scan_by_file'', ''time_out'']"
      by (simp add: sensosys_configs_default_def dict_keys_def)
    with True r m show ?thesis by simp
  next
    case False
    then have r: "?r = ([Log ''SensoSys'' ERROR
                    (''Some keys in file '' @ file_name @ '' are invalid or incomplete'')],
                  False, sensosys_configs_default)"
      by (simp add: get_sensosys_configs_by_file_def assms(1) dk)
    have "dom (map_of sensosys_configs_default) \<noteq> dom (map_of doc)"
      using False dk by (simp add: dom_map_of_conv_image_fst dict_keys_def)
    then have "map_of sensosys_configs_default \<noteq> map_of doc"
      by metis
    moreover have "dict_keys sensosys_configs_default = [''port'', ''scan_by_file'', ''time_out'']"
      by (simp add: sensosys_configs_default_def dict_keys_def)
    ultimately show ?thesis using False r by simp
  qed
qed

theorem config_file_all_or_nothing_witness:
  "demo_files ''a.json'' =
     Some [(''time_out'', VNum 2), (''port'', VStr ''COM7''), (''scan_by_file'', VBool True)] \<and>
   get_sensosys_configs_by_file demo_files sensosys_configs_default ''a.json'' =
     ([], True, [(''port'', VStr ''COM7''), (''scan_by_file'', VBool True), (''time_out'', VNum 2)]) \<and>
   demo_files ''b.json'' = Some [(''port'', VStr ''COM7''), (''scan_by_file'', VBool True)] \<and>
   get_sensosys_configs_by_file demo_files sensosys_configs_default ''b.json'' =
     ([Log ''SensoSys'' ERROR ''Some keys in file b.json are invalid or incomplete''], False,
      [(''port'', VStr ''COM1''), (''scan_by_file'', VBool False), (''time_out'', VNum (5 / 100))])"
proof -
  have fa: "demo_files ''a.json'' =
      Some [(''time_out'', VNum 2), (''port'', VStr ''COM7''), (''scan_by_file'', VBool True)]"
    and fb: "demo_files ''b.json'' = Some [(''port'', VStr ''COM7''), (''scan_by_file'', VBool True)]"
    by (simp_all add: demo_files_def)
  have da: "distinct (dict_keys [(''time_out'', VNum 2), (''port'', VStr ''COM7''), (''scan_by_file'', VBool True)])"
    and db: "distinct (dict_keys [(''port'', VStr ''COM7''), (''scan_by_file'', VBool True)])"
    by (simp_all add: dict_keys_def)
  have ne: "{''port'', ''scan_by_file''} \<noteq> {''port'', ''scan_by_file'', ''time_out''}"
  proof
    assume eq: "{''port'', ''scan_by_file''} = {''port'', ''scan_by_file'', ''time_out''}"
    have "''time_out'' \<in> {''port'', ''scan_by_file''}"
      by (subst eq) simp
    then show False by simp
  qed
  have a: "get_sensosys_configs_by_file demo_files sensosys_configs_default ''a.json'' =
     ([], True, [(''port'', VStr ''COM7''), (''scan_by_file'', VBool True), (''time_out'', VNum 2)])"
    using config_file_all_or_nothing [of demo_files "''a.json''", OF fa da]
    by (simp add: dict_keys_def dict_update_def sensosys_configs_default_def insert_commute)
  have b: "get_sensosys_configs_by_file demo_files sensosys_configs_default ''b.json'' =
     ([Log ''SensoSys'' ERROR ''Some keys in file b.json are invalid or incomplete''], False,
      [(''port'', VStr ''COM1''), (''scan_by_file'', VBool False), (''time_out'', VNum (5 / 100))])"
    using config_file_all_or_nothing [of demo_files "''b.json''", OF fb db] ne
    by (simp add: dict_keys_def sensosys_configs_default_def)
  from fa fb a b show ?thesis by simp
qed

subsection \<open>The bus scanner\<close>

lemma and_then_Inr: "and_then r f = Inr y \<longleftrightarrow> (\<exists>x. r = Inr x \<and> f x = Inr y)"
  by (cases r) (simp_all add: and_then_def)

lemma and_then_Inl_left: "and_then (Inl e) f = Inl e"
  by (simp add: and_then_def)

lemma and_then_Inr_left: "and_then (Inr x) f = f x"
  by (simp add: and_then_def)

lemma update_with_Inr: "update_with d x = Inr d' \<longleftrightarrow> (\<exists>e. x = Some e \<and> d' = dict_update d e)"
  by (cases x) (auto simp: update_with_def)

lemma scan_device_silent: "read_instrument_name drv i = None \<Longrightarrow> scan_device drv i = Inr None"
  by (simp add: scan_device_def)

lemma scan_device_Some_responds:
  "scan_device drv i = Inr (Some r) \<Longrightarrow> read_instrument_name drv i \<noteq> None"
  by (auto simp: scan_device_def split: option.splits)

lemma scan_device_None_silent:
  "scan_device drv i = Inr None \<Longrightarrow> read_instrument_name drv i = None"
  by (auto simp: scan_device_def Let_def and_then_Inr split: option.splits val.splits)

lemma scan_loop_filter:
  "scan_loop drv ids acc = scan_loop drv (filter (\<lambda>i. read_instrument_name drv i \<noteq> None) ids) acc"
  by (induction ids arbitrary: acc) (auto simp: scan_device_silent split: sum.splits option.splits)

lemma scan_loop_removeAll:
  "read_instrument_name drv i = None \<Longrightarrow> scan_loop drv (removeAll i ids) acc = scan_loop drv ids acc"
  by (induction ids arbitrary: acc) (auto simp: scan_device_silent split: sum.splits option.splits)

lemma dict_keys_single_update:
  "dict_keys (dict_update d [(k, v)]) = (if k \<in> set (dict_keys d) then dict_keys d else dict_keys d @ [k])"
  by (simp add: dict_update_def dict_keys_def update_keys)

lemma scan_loop_keys:
  "scan_loop drv ids acc = Inr devs \<Longrightarrow>
   set (dict_keys devs) = set (dict_keys acc) \<union> py_str ` {i \<in> set ids. read_instrument_name drv i \<noteq> None}"
proof (induction ids arbitrary: acc)
  case Nil
  then show ?case by simp
next
  case (Cons i ids)
  show ?case
  proof (cases "scan_device drv i")
    case (Inl e)
    with Cons.prems show ?thesis by simp
  next
    case (Inr x)
    show ?thesis
    proof (cases x)
      case None
      with Inr have "read_instrument_name drv i = None"
        by (simp add: scan_device_None_silent)
      moreover from Cons.prems Inr None have "scan_loop drv ids acc = Inr devs" by simp
      ultimately show ?thesis using Cons.IH [of acc] by auto
    next
      case (Some r)
      with Inr have "read_instrument_name drv i \<noteq> None"
        by (simp add: scan_device_Some_responds)
      moreover from Cons.prems Inr Some
      have "scan_loop drv ids (dict_update acc [(py_str i, r)]) = Inr devs" by simp
      ultimately show ?thesis
        using Cons.IH [of "dict_update acc [(py_str i, r)]"]
        by (auto simp: dict_keys_single_update)
    qed
  qed
qed

lemma scan_loop_fails:
  assumes "i \<in> set ids" "isl (scan_device drv i)"
  shows "isl (scan_loop drv ids acc)"
  using assms by (induction ids arbitrary: acc) (auto split: sum.splits option.splits)

lemma scan_device_unknown_family:
  assumes "read_instrument_name drv i = Some resp"
    and "map_of resp ''instrument_name'' = Some (VStr raw)"
    and "\<not> startswith (strip (upper raw)) ''ANEMO''" "\<not> startswith (strip (upper raw)) ''THERM''"
        "\<not> startswith (strip (upper raw)) ''HYGRO''"
  shows "isl (scan_device drv i)"
    and "read_serial_number drv i \<noteq> None \<Longrightarrow> read_expired_calibration_date drv i \<noteq> None \<Longrightarrow>
         read_battery_state drv i \<noteq> None \<Longrightarrow>
         scan_device drv i = Inl (ValueError_invalid_instrument_name (strip (upper raw)))"
proof -
  show "isl (scan_device drv i)"
    using assms
    by (cases "scan_device drv i") (auto simp: scan_device_def Let_def and_then_Inr)
  show "scan_device drv i = Inl (ValueError_invalid_instrument_name (strip (upper raw)))"
    if "read_serial_number drv i \<noteq> None" "read_expired_calibration_date drv i \<noteq> None"
      "read_battery_state drv i \<noteq> None"
    using assms that
    by (auto simp: scan_device_def Let_def update_with_def and_then_def)
qed


text \<open>
  C4: an address whose identity query gives no response is skipped by the scan without
  an error: scanning with or without it gives the same outcome, and its key is not in
  the result mapping. An address in the candidate list that answers with an instrument
  name whose uppercased, trimmed form starts with none of \<open>ANEMO\<close>, \<open>THERM\<close>,
  \<open>HYGRO\<close> makes the whole scan fail with an error; when its serial number,
  calibration date and battery state reads answer, the error of that address is the
  \<open>ValueError\<close> for the invalid instrument name.
\<close>

theorem scan_skips_silent_rejects_unknown:
  "(read_instrument_name drv i = None \<longrightarrow>
      scan_device drv i = Inr None \<and>
      scan_devices drv (removeAll i ids) = scan_devices drv ids \<and>
      (\<forall>devs. scan_devices drv ids = Inr devs \<longrightarrow> py_str i \<notin> set (dict_keys devs))) \<and>
   (i \<in> set ids \<and> read_instrument_name drv i = Some resp \<and>
    map_of resp ''instrument_name'' = Some (VStr raw) \<and>
    \<not> startswith (strip (upper raw)) ''ANEMO'' \<and> \<not> startswith (strip (upper raw)) ''THERM'' \<and>
    \<not> startswith (strip (upper raw)) ''HYGRO'' \<longrightarrow>
      isl (scan_device drv i) \<and> isl (scan_devices drv ids) \<and>
      (read_serial_number drv i \<noteq> None \<and> read_expired_calibration_date drv i \<noteq> None \<and>
       read_battery_state drv i \<noteq> None \<longrightarrow>
         scan_device drv i = Inl (ValueError_invalid_instrument_name (strip (upper raw)))))"
proof (intro conjI impI allI)
  assume silent: "read_instrument_name drv i = None"
  then show "scan_device drv i = Inr None"
    by (rule scan_device_silent)
  from silent show "scan_devices drv (removeAll i ids) = scan_devices drv ids"
    by (simp add: scan_devices_def scan_loop_removeAll)
  fix devs
  assume "scan_devices drv ids = Inr devs"
  then have "set (dict_keys devs) = py_str ` {j \<in> set ids. read_instrument_name drv j \<noteq> None}"
    using scan_loop_keys [of drv ids "[]" devs] by (simp add: scan_devices_def dict_keys_def)
  with silent show "py_str i \<notin> set (dict_keys devs)"
    by (auto dest: py_str_inj)
next
  assume a: "i \<in> set ids \<and> read_instrument_name drv i = Some resp \<and>
    map_of resp ''instrument_name'' = Some (VStr raw) \<and>
    \<not> startswith (strip (upper raw)) ''ANEMO'' \<and> \<not> startswith (strip (upper raw)) ''THERM'' \<and>
    \<not> startswith (strip (upper raw)) ''HYGRO''"
  then show f: "isl (scan_device drv i)"
    by (intro scan_device_unknown_family(1) [of drv i resp raw]) simp_all
  from a have "i \<in> set ids" by simp
  from scan_loop_fails [OF this f] show "isl (scan_devices drv ids)"
    by (simp add: scan_devices_def)
  assume "read_serial_number drv i \<noteq> None \<and> read_expired_calibration_date drv i \<noteq> None \<and>
       read_battery_state drv i \<noteq> None"
  with a show "scan_device drv i = Inl (ValueError_invalid_instrument_name (strip (upper raw)))"
    by (intro scan_device_unknown_family(2) [of drv i resp raw]) simp_all
qed

lemma upper_strip_examples:
  "strip (upper ''baro-9'') = ''BARO-9''" "strip (upper ''Anemo-X '') = ''ANEMO-X''"
  "strip (upper ''therm-1'') = ''THERM-1''" "strip (upper ''HygroBar'') = ''HYGROBAR''"
  by (simp_all add: strip_def upper_def upper_char_def is_space_def)

theorem scan_skips_silent_rejects_unknown_witness:
  "read_instrument_name demo_driver 7 = None \<and>
   scan_devices demo_driver (removeAll 7 [5, 7, 300]) = scan_devices demo_driver [5, 7, 300] \<and>
   read_instrument_name demo_driver 300 = Some [(''instrument_name'', VStr ''baro-9'')] \<and>
   scan_device demo_driver 300 = Inl (ValueError_invalid_instrument_name ''BARO-9'') \<and>
   isl (scan_devices demo_driver [5, 7, 300])"
proof -
  have silent: "read_instrument_name demo_driver 7 = None"
    and resp: "read_instrument_name demo_driver 300 = Some [(''instrument_name'', VStr ''baro-9'')]"
    and others: "read_serial_number demo_driver 300 \<noteq> None"
      "read_expired_calibration_date demo_driver 300 \<noteq> None"
      "read_battery_state demo_driver 300 \<noteq> None"
    by (simp_all add: demo_driver_def)
  have "\<not> startswith ''BARO-9'' ''ANEMO''" "\<not> startswith ''BARO-9'' ''THERM''"
       "\<not> startswith ''BARO-9'' ''HYGRO''"
    by (simp_all add: startswith_def)
  with silent resp others
    scan_skips_silent_rejects_unknown [of demo_driver 7 "[5, 7, 300]"]
    scan_skips_silent_rejects_unknown [of demo_driver 300 "[5, 7, 300]"
      "[(''instrument_name'', VStr ''baro-9'')]" "''baro-9''"]
  show ?thesis
    by (simp add: upper_strip_examples)
qed

lemma update_with_keys:
  "update_with d x = Inr d' \<Longrightarrow> set (dict_keys d) \<subseteq> set (dict_keys d')"
  by (auto simp: update_with_Inr dict_keys_update)

lemma update_with_name:
  assumes "update_with d x = Inr d'" "lacks_instrument_name x"
  shows "map_of d' ''instrument_name'' = map_of d ''instrument_name''"
proof -
  from assms(1) obtain e where e: "x = Some e" "d' = dict_update d e"
    by (auto simp: update_with_Inr)
  with assms(2) have "''instrument_name'' \<notin> fst ` set (rev e)"
    by (simp add: lacks_instrument_name_def dict_keys_def)
  then have "map_of (rev e) ''instrument_name'' = None"
    by (simp add: map_of_eq_None_iff)
  then show ?thesis
    by (simp add: e map_of_dict_update map_add_def)
qed

lemma therm_indicators_name:
  "therm_indicators drv i chs d = Inr d' \<Longrightarrow>
   map_of d' ''instrument_name'' = map_of d ''instrument_name''"
proof (induction chs arbitrary: d)
  case Nil
  then show ?case by simp
next
  case (Cons ch chs)
  then show ?case
    by (auto simp: dict_update_def update_conv' split: option.splits)
qed

lemma convert_date_loop_name:
  "map_of (convert_date_loop s fmts d) ''instrument_name'' = map_of d ''instrument_name''"
  by (induction fmts arbitrary: d) (auto simp: update_conv' split: option.splits)

lemma convert_calibration_date_name:
  "convert_calibration_date d = Inr d' \<Longrightarrow>
   map_of d' ''instrument_name'' = map_of d ''instrument_name''"
  by (auto simp: convert_calibration_date_def convert_date_loop_name
      simp del: convert_date_loop.simps split: val.splits)

lemma scan_device_chain:
  assumes "scan_device drv i = Inr (Some r)"
  obtains resp raw r1 r2 r3 r5 where
    "read_instrument_name drv i = Some resp"
    "map_of resp ''instrument_name'' = Some (VStr raw)"
    "update_with (AList.update ''instrument_name'' (VStr (strip (upper raw))) resp)
       (read_serial_number drv i) = Inr r1"
    "update_with r1 (read_expired_calibration_date drv i) = Inr r2"
    "update_with r2 (read_battery_state drv i) = Inr r3"
    "(if startswith (strip (upper raw)) ''ANEMO'' then
        and_then (update_with r3 (senso_anemo_read_configuration drv i))
          (\<lambda>r4. update_with r4 (senso_anemo_read_indicator drv i))
      else if startswith (strip (upper raw)) ''THERM'' then
        and_then (update_with r3 (senso_therm_read_configuration drv i))
          (\<lambda>r4. therm_indicators drv i [1, 2, 3, 4] r4)
      else if startswith (strip (upper raw)) ''HYGRO'' then
        update_with r3 (senso_hygbar_read_configuration drv i)
      else Inl (ValueError_invalid_instrument_name (strip (upper raw)))) = Inr r5"
    "convert_calibration_date r5 = Inr r"
proof -
  from assms obtain resp where resp: "read_instrument_name drv i = Some resp"
    by (cases "read_instrument_name drv i") (auto simp: scan_device_def)
  from assms resp obtain raw where raw: "map_of resp ''instrument_name'' = Some (VStr raw)"
    by (auto simp: scan_device_def split: option.splits val.splits)
  from assms show ?thesis
    unfolding scan_device_def resp raw option.case val.case Let_def and_then_Inr
    using that [OF resp raw] by auto
qed

lemma scan_device_name:
  assumes "scan_device drv i = Inr (Some r)" "reads_keep_name drv i"
  shows "\<exists>n. map_of r ''instrument_name'' = Some (VStr n) \<and>
           (startswith n ''ANEMO'' \<or> startswith n ''THERM'' \<or> startswith n ''HYGRO'')"
proof -
  from assms(1) obtain resp raw r1 r2 r3 r5 where c:
    "update_with (AList.update ''instrument_name'' (VStr (strip (upper raw))) resp)
       (read_serial_number drv i) = Inr r1"
    "update_with r1 (read_expired_calibration_date drv i) = Inr r2"
    "update_with r2 (read_battery_state drv i) = Inr r3"
    "(if startswith (strip (upper raw)) ''ANEMO'' then
        and_then (update_with r3 (senso_anemo_read_configuration drv i))
          (\<lambda>r4. update_with r4 (senso_anemo_read_indicator drv i))
      else if startswith (strip (upper raw)) ''THERM'' then
        and_then (update_with r3 (senso_therm_read_configuration drv i))
          (\<lambda>r4. therm_indicators drv i [1, 2, 3, 4] r4)
      else if startswith (strip (upper raw)) ''HYGRO'' then
        update_with r3 (senso_hygbar_read_configuration drv i)
      else Inl (ValueError_invalid_instrument_name (strip (upper raw)))) = Inr r5"
    "convert_calibration_date r5 = Inr r"
    by (rule scan_device_chain)
  let ?n = "strip (upper raw)"
  from assms(2) have k:
    "lacks_instrument_name (read_serial_number drv i)"
    "lacks_instrument_name (read_expired_calibration_date drv i)"
    "lacks_instrument_name (read_battery_state drv i)"
    "lacks_instrument_name (senso_anemo_read_configuration drv i)"
    "lacks_instrument_name (senso_anemo_read_indicator drv i)"
    "lacks_instrument_name (senso_therm_read_configuration drv i)"
    "lacks_instrument_name (senso_hygbar_read_configuration drv i)"
    by (simp_all add: reads_keep_name_def)
  have "map_of (AList.update ''instrument_name'' (VStr ?n) resp) ''instrument_name'' = Some (VStr ?n)"
    by (simp add: update_conv')
  with c(1) k(1) have "map_of r1 ''instrument_name'' = Some (VStr ?n)"
    by (simp add: update_with_name)
  with c(2) k(2) have "map_of r2 ''instrument_name'' = Some (VStr ?n)"
    by (simp add: update_with_name)
  with c(3) k(3) have n3: "map_of r3 ''instrument_name'' = Some (VStr ?n)"
    by (simp add: update_with_name)
  from c(4) have fam:
    "startswith ?n ''ANEMO'' \<or> startswith ?n ''THERM'' \<or> startswith ?n ''HYGRO''"
    by (auto split: if_splits)
  from c(4) n3 k(4-7) have "map_of r5 ''instrument_name'' = Some (VStr ?n)"
    by (auto simp: and_then_Inr update_with_name therm_indicators_name
        simp del: therm_indicators.simps split: if_splits)
  with c(5) have "map_of r ''instrument_name'' = Some (VStr ?n)"
    by (simp add: convert_calibration_date_name)
  with fam show ?thesis by blast
qed

lemma therm_indicators_keys:
  "therm_indicators drv i chs d = Inr d' \<Longrightarrow> set (dict_keys d) \<subseteq> set (dict_keys d')"
proof (induction chs arbitrary: d)
  case Nil
  then show ?case by simp
next
  case (Cons ch chs)
  from Cons.prems obtain ind where
    "therm_indicators drv i chs
       (dict_update d [(''senso_therm_indicator_channel_'' @ py_str ch,
                        dict_get ind ''senso_therm_indicator'')]) = Inr d'"
    by (auto split: option.splits)
  from Cons.IH [OF this] show ?case
    by (auto simp: dict_keys_update)
qed

lemma convert_date_loop_keys:
  "set (dict_keys d) \<subseteq> set (dict_keys (convert_date_loop s fmts d))"
proof (induction fmts arbitrary: d)
  case Nil
  show ?case by simp
next
  case (Cons fmt fmts)
  show ?case
  proof (cases "strptime s fmt")
    case None
    then show ?thesis using Cons [of d] by simp
  next
    case (Some dt)
    have "set (dict_keys d) \<subseteq>
          set (dict_keys (AList.update ''calibration_expired_date'' (VStr (strftime dt ''%Y-%m-%d'')) d))"
      by (auto simp: dict_keys_def dom_update)
    also note Cons [of "AList.update ''calibration_expired_date'' (VStr (strftime dt ''%Y-%m-%d'')) d"]
    finally show ?thesis using Some by simp
  qed
qed

lemma scan_device_has_name:
  assumes "scan_device drv i = Inr (Some r)"
  shows "\<exists>name. map_of r ''instrument_name'' = Some name"
proof -
  from assms obtain resp raw r1 r2 r3 r5 where c:
    "update_with (AList.update ''instrument_name'' (VStr (strip (upper raw))) resp)
       (read_serial_number drv i) = Inr r1"
    "update_with r1 (read_expired_calibration_date drv i) = Inr r2"
    "update_with r2 (read_battery_state drv i) = Inr r3"
    "(if startswith (strip (upper raw)) ''ANEMO'' then
        and_then (update_with r3 (senso_anemo_read_configuration drv i))
          (\<lambda>r4. update_with r4 (senso_anemo_read_indicator drv i))
      else if startswith (strip (upper raw)) ''THERM'' then
        and_then (update_with r3 (senso_therm_read_configuration drv i))
          (\<lambda>r4. therm_indicators drv i [1, 2, 3, 4] r4)
      else if startswith (strip (upper raw)) ''HYGRO'' then
        update_with r3 (senso_hygbar_read_configuration drv i)
      else Inl (ValueError_invalid_instrument_name (strip (upper raw)))) = Inr r5"
    "convert_calibration_date r5 = Inr r"
    by (rule scan_device_chain)
  let ?k = "''instrument_name''"
  have "?k \<in> set (dict_keys (AList.update ?k (VStr (strip (upper raw))) resp))"
    by (simp add: dict_keys_def dom_update)
  with update_with_keys [OF c(1)] have "?k \<in> set (dict_keys r1)" by blast
  with update_with_keys [OF c(2)] have "?k \<in> set (dict_keys r2)" by blast
  with update_with_keys [OF c(3)] have k3: "?k \<in> set (dict_keys r3)" by blast
  from c(4) have "set (dict_keys r3) \<subseteq> set (dict_keys r5)"
    by (auto simp: and_then_Inr simp del: therm_indicators.simps split: if_splits
        dest!: update_with_keys therm_indicators_keys)
  with k3 have "?k \<in> set (dict_keys r5)" by blast
  moreover from c(5) have "set (dict_keys r5) \<subseteq> set (dict_keys r)"
    using convert_date_loop_keys [of r5]
    by (auto simp: convert_calibration_date_def simp del: convert_date_loop.simps
        split: val.splits)
  ultimately have "?k \<in> fst ` set r"
    by (auto simp: dict_keys_def)
  then show ?thesis
    by (metis map_of_eq_None_iff not_Some_eq)
qed


lemma in_update_cases:
  "kv \<in> set (AList.update k v al) \<Longrightarrow> kv = (k, v) \<or> kv \<in> set al"
  by (induction al) (auto split: if_splits)

lemma scan_loop_records:
  assumes "\<And>i r. i \<in> set ids \<Longrightarrow> scan_device drv i = Inr (Some r) \<Longrightarrow> P r"
    and "list_all (\<lambda>kv. P (snd kv)) acc"
    and "scan_loop drv ids acc = Inr devs"
  shows "list_all (\<lambda>kv. P (snd kv)) devs"
  using assms
proof (induction ids arbitrary: acc)
  case Nil
  then show ?case by simp
next
  case (Cons i ids)
  have rest: "P r" if "j \<in> set ids" "scan_device drv j = Inr (Some r)" for j r
    using that Cons.prems(1) [of j r] by simp
  show ?case
  proof (cases "scan_device drv i")
    case (Inl e)
    with Cons.prems(3) show ?thesis by simp
  next
    case (Inr x)
    show ?thesis
    proof (cases x)
      case None
      with Inr Cons.prems(3) have "scan_loop drv ids acc = Inr devs" by simp
      from Cons.IH [OF rest Cons.prems(2) this] show ?thesis by simp
    next
      case (Some r)
      with Inr Cons.prems(1) [of i r] have "P r" by simp
      with Cons.prems(2) have acc': "list_all (\<lambda>kv. P (snd kv)) (dict_update acc [(py_str i, r)])"
        by (auto simp: list_all_iff dict_update_def dest!: in_update_cases)
      from Some Inr Cons.prems(3)
      have "scan_loop drv ids (dict_update acc [(py_str i, r)]) = Inr devs" by simp
      from Cons.IH [OF rest acc' this] show ?thesis by simp
    qed
  qed
qed

lemma devices_list_of_named:
  assumes "list_all (\<lambda>kv. \<exists>name. map_of (snd kv) ''instrument_name'' = Some name \<and> Q name) devs"
  shows "\<exists>dl. sensosys_devices_list devs = Inr dl \<and> map fst dl = dict_keys devs \<and>
           list_all (\<lambda>d. Q (fst (snd d))) dl"
  using assms
proof (induction devs)
  case Nil
  show ?case by (simp add: dict_keys_def)
next
  case (Cons kv devs)
  obtain k v where kv: "kv = (k, v)" by (cases kv)
  from Cons.prems obtain name where n: "map_of v ''instrument_name'' = Some name" "Q name"
    by (auto simp: kv)
  from Cons obtain dl where dl: "sensosys_devices_list devs = Inr dl" "map fst dl = dict_keys devs"
    "list_all (\<lambda>d. Q (fst (snd d))) dl"
    by auto
  with n show ?case
    by (simp add: kv dict_keys_def)
qed

lemma scan_loop_order:
  assumes "distinct ids" "py_str ` set ids \<inter> set (dict_keys acc) = {}"
    and "scan_loop drv ids acc = Inr devs"
  shows "dict_keys devs =
         dict_keys acc @ map py_str (filter (\<lambda>i. read_instrument_name drv i \<noteq> None) ids)"
  using assms
proof (induction ids arbitrary: acc)
  case Nil
  then show ?case by simp
next
  case (Cons i ids)
  show ?case
  proof (cases "scan_device drv i")
    case (Inl e)
    with Cons.prems(3) show ?thesis by simp
  next
    case (Inr x)
    show ?thesis
    proof (cases x)
      case None
      with Inr have "read_instrument_name drv i = None"
        by (simp add: scan_device_None_silent)
      moreover from None Inr Cons.prems(3) have "scan_loop drv ids acc = Inr devs" by simp
      ultimately show ?thesis
        using Cons.IH [of acc] Cons.prems(1,2) by auto
    next
      case (Some r)
      with Inr have resp: "read_instrument_name drv i \<noteq> None"
        by (simp add: scan_device_Some_responds)
      from Cons.prems(2) have fresh: "py_str i \<notin> set (dict_keys acc)" by auto
      then have keys: "dict_keys (dict_update acc [(py_str i, r)]) = dict_keys acc @ [py_str i]"
        by (simp add: dict_keys_single_update)
      from Cons.prems(1) have "py_str i \<notin> py_str ` set ids"
        by (auto dest: py_str_inj)
      with Cons.prems(2) keys
      have disj: "py_str ` set ids \<inter> set (dict_keys (dict_update acc [(py_str i, r)])) = {}"
        by auto
      from Some Inr Cons.prems(3)
      have "scan_loop drv ids (dict_update acc [(py_str i, r)]) = Inr devs" by simp
      from Cons.IH [OF _ disj this] Cons.prems(1) keys resp show ?thesis by simp
    qed
  qed
qed

lemma sorted_filter_less: "sorted_wrt (<) (xs :: int list) \<Longrightarrow> sorted_wrt (<) (filter P xs)"
  by (induction xs) auto

lemma ascending_upto: "sorted_wrt (<) [i..j]"
  by (simp add: strict_sorted_iff)

lemma map_py_str_removeAll:
  "map py_str (removeAll i xs) = filter (\<lambda>k. k \<noteq> py_str i) (map py_str xs)"
  by (induction xs) (auto dest: py_str_inj)

lemma set_first_occurrences: "set (first_occurrences xs) = set xs"
  by (induction xs) auto

lemma first_occurrences_distinct: "distinct xs \<Longrightarrow> first_occurrences xs = xs"
  by (induction xs) (simp_all add: set_first_occurrences)

lemma scan_loop_first_occurrences:
  "scan_loop drv ids acc = Inr devs \<Longrightarrow>
   dict_keys devs =
     dict_keys acc @
     filter (\<lambda>k. k \<notin> set (dict_keys acc))
       (map py_str (first_occurrences (filter (\<lambda>i. read_instrument_name drv i \<noteq> None) ids)))"
proof (induction ids arbitrary: acc)
  case Nil
  then show ?case by simp
next
  case (Cons i ids)
  let ?F = "first_occurrences (filter (\<lambda>i. read_instrument_name drv i \<noteq> None) ids)"
  show ?case
  proof (cases "scan_device drv i")
    case (Inl e)
    with Cons.prems show ?thesis by simp
  next
    case (Inr x)
    show ?thesis
    proof (cases x)
      case None
      with Inr have "read_instrument_name drv i = None"
        by (simp add: scan_device_None_silent)
      moreover from None Inr Cons.prems have "scan_loop drv ids acc = Inr devs" by simp
      ultimately show ?thesis
        using Cons.IH [of acc] by simp
    next
      case (Some r)
      with Inr have resp: "read_instrument_name drv i \<noteq> None"
        by (simp add: scan_device_Some_responds)
      let ?acc = "dict_update acc [(py_str i, r)]"
      from Some Inr Cons.prems have "scan_loop drv ids ?acc = Inr devs" by simp
      from Cons.IH [OF this] have ih:
        "dict_keys devs = dict_keys ?acc @ filter (\<lambda>k. k \<notin> set (dict_keys ?acc)) (map py_str ?F)" .
      show ?thesis
      proof (cases "py_str i \<in> set (dict_keys acc)")
        case True
        then have k: "dict_keys ?acc = dict_keys acc"
          by (simp add: dict_keys_single_update)
        have "filter (\<lambda>k. k \<notin> set (dict_keys acc)) (map py_str ?F) =
              filter (\<lambda>k. k \<notin> set (dict_keys acc)) (map py_str (removeAll i ?F))"
          using True by (simp add: map_py_str_removeAll) (metis (mono_tags, lifting) filter_cong)
        with ih k True resp show ?thesis by simp
      next
        case False
        then have k: "dict_keys ?acc = dict_keys acc @ [py_str i]"
          by (simp add: dict_keys_single_update)
        have "filter (\<lambda>k. k \<notin> set (dict_keys ?acc)) (map py_str ?F) =
              filter (\<lambda>k. k \<notin> set (dict_keys acc)) (map py_str (removeAll i ?F))"
          by (simp add: k map_py_str_removeAll conj_commute)
        with ih k False resp show ?thesis by simp
      qed
    qed
  qed
qed

text \<open>
  C9, amended: the device list is in the insertion order of the scan-result mapping,
  and that is the order in which the responding addresses first occur in the candidate
  list, whatever the order of the candidate list. For a candidate list without
  repetitions it is the list of the responding candidates; for an ascending candidate
  list it is ascending address order. The full scan runs over the ascending list 0 to
  255; a file-supplied list is scanned in the order the file gives.
\<close>

theorem scan_order_is_candidate_order:
  assumes "scan_devices drv ids = Inr devs"
  shows "sorted_wrt (<) [0..255::int] \<and>
         scan_devices_by_ids drv = scan_devices drv [0..255] \<and>
         (\<exists>dl. sensosys_devices_list devs = Inr dl \<and>
               map fst dl = dict_keys devs \<and>
               dict_keys devs =
                 map py_str (first_occurrences
                   (filter (\<lambda>i. read_instrument_name drv i \<noteq> None) ids)) \<and>
               (distinct ids \<longrightarrow>
                  dict_keys devs =
                    map py_str (filter (\<lambda>i. read_instrument_name drv i \<noteq> None) ids)) \<and>
               (sorted_wrt (<) ids \<longrightarrow>
                  dict_keys devs =
                    map py_str (filter (\<lambda>i. read_instrument_name drv i \<noteq> None) ids) \<and>
                  sorted_wrt (<) (filter (\<lambda>i. read_instrument_name drv i \<noteq> None) ids)))"
proof -
  let ?resp = "filter (\<lambda>i. read_instrument_name drv i \<noteq> None) ids"
  from assms have "list_all (\<lambda>kv. \<exists>name. map_of (snd kv) ''instrument_name'' = Some name \<and> True) devs"
    unfolding scan_devices_def
    by (rule scan_loop_records [rotated 2]) (simp_all add: scan_device_has_name)
  then obtain dl where dl: "sensosys_devices_list devs = Inr dl" "map fst dl = dict_keys devs"
    using devices_list_of_named [of "\<lambda>_. True" devs] by auto
  from scan_loop_first_occurrences [of drv ids "[]" devs] assms
  have k: "dict_keys devs = map py_str (first_occurrences ?resp)"
    by (simp add: scan_devices_def dict_keys_def)
  have d: "dict_keys devs = map py_str ?resp" if "distinct ids"
    using that k by (simp add: first_occurrences_distinct)
  have s: "dict_keys devs = map py_str ?resp \<and> sorted_wrt (<) ?resp" if "sorted_wrt (<) ids"
  proof -
    from that have "distinct ids" by (simp add: strict_sorted_iff)
    with d sorted_filter_less [OF that] show ?thesis by blast
  qed
  from dl k d s show ?thesis
    by (simp add: ascending_upto scan_devices_by_ids_def)
qed

lemma demo_scan_ok: "\<not> isl (scan_devices demo_driver [5, 12, 200])"
  by code_simp

lemma demo_scan_repeated_ok: "\<not> isl (scan_devices demo_driver [12, 5, 7, 12, 200])"
  by code_simp

theorem scan_order_is_candidate_order_witness:
  "(\<exists>devs dl. scan_devices demo_driver [12, 5, 7, 12, 200] = Inr devs \<and>
      sensosys_devices_list devs = Inr dl \<and> map fst dl = [''12'', ''5'', ''200'']) \<and>
   sorted_wrt (<) [5, 12, 200 :: int] \<and>
   (\<exists>devs dl. scan_devices demo_driver [5, 12, 200] = Inr devs \<and>
      sensosys_devices_list devs = Inr dl \<and> map fst dl = [''5'', ''12'', ''200''])"
proof -
  have s: "sorted_wrt (<) [5, 12, 200 :: int]" by simp
  have p: "map py_str [12, 5, 200] = [''12'', ''5'', ''200'']"
    "map py_str [5, 12, 200] = [''5'', ''12'', ''200'']"
    by (simp_all add: py_str_def str_nat.simps digit_char_def)
  from demo_scan_repeated_ok obtain devs where
    devs: "scan_devices demo_driver [12, 5, 7, 12, 200] = Inr devs"
    by (cases "scan_devices demo_driver [12, 5, 7, 12, 200]") auto
  have "first_occurrences (filter (\<lambda>i. read_instrument_name demo_driver i \<noteq> None) [12, 5, 7, 12, 200])
          = [12, 5, 200]"
    by (simp add: demo_driver_def)
  with scan_order_is_candidate_order [OF devs] p(1) devs
  have 1: "\<exists>devs dl. scan_devices demo_driver [12, 5, 7, 12, 200] = Inr devs \<and>
      sensosys_devices_list devs = Inr dl \<and> map fst dl = [''12'', ''5'', ''200'']"
    by auto
  from demo_scan_ok obtain devs' where devs': "scan_devices demo_driver [5, 12, 200] = Inr devs'"
    by (cases "scan_devices demo_driver [5, 12, 200]") auto
  have "filter (\<lambda>i. read_instrument_name demo_driver i \<noteq> None) [5, 12, 200] = [5, 12, 200]"
    by (simp add: demo_driver_def)
  with scan_order_is_candidate_order [OF devs'] s p(2) devs'
  have 2: "\<exists>devs dl. scan_devices demo_driver [5, 12, 200] = Inr devs \<and>
      sensosys_devices_list devs = Inr dl \<and> map fst dl = [''5'', ''12'', ''200'']"
    by auto
  from 1 s 2 show ?thesis by (intro conjI)
qed

theorem scan_order_counterexample:
  "and_then (scan_devices_by_file demo_driver [''12'', ''5'']) sensosys_devices_list =
     Inr [(''12'', VStr ''THERM-1'', VNone), (''5'', VStr ''ANEMO-X'', VNone)] \<and>
   map py_int [''12'', ''5''] = [Inr 12, Inr 5] \<and>
   \<not> sorted_wrt (<) [12, 5 :: int]"
  by code_simp

lemma get_all_loop_error:
  "get_all_loop drv ds acc = Inl e \<Longrightarrow> \<exists>d \<in> set ds. device_params drv d = Inl e"
  by (induction ds arbitrary: acc) (auto split: sum.splits)

lemma read_data_loop_error:
  "read_data_loop drv ds acc lg = Inl e \<Longrightarrow> \<exists>d \<in> set ds. device_data drv d = Inl e"
  by (induction ds arbitrary: acc lg) (auto split: sum.splits)

lemma known_family_no_name_error:
  assumes "startswith n ''ANEMO'' \<or> startswith n ''THERM'' \<or> startswith n ''HYGRO''"
  shows "device_params drv (k, VStr n, c) \<noteq> Inl (ValueError_invalid_instrument_name x)"
    and "device_data drv (k, VStr n, c) \<noteq> Inl (ValueError_invalid_instrument_name x)"
proof -
  from assms show "device_params drv (k, VStr n, c) \<noteq> Inl (ValueError_invalid_instrument_name x)"
    by (auto simp: device_params_def split: option.splits)
  have "py_int k \<noteq> Inl (ValueError_invalid_instrument_name x)"
    by (simp add: py_int_def Let_def)
  with assms show "device_data drv (k, VStr n, c) \<noteq> Inl (ValueError_invalid_instrument_name x)"
    by (cases "py_int k") (auto simp: device_data_def split: option.splits)
qed

text \<open>
  C10, amended: when none of the scan's attribute reads answers with an
  \<open>instrument_name\<close> entry (\<open>reads_keep_name\<close>), then after a successful scan
  every device of the device list has a string as its name that starts with
  \<open>ANEMO\<close>, \<open>THERM\<close> or \<open>HYGRO\<close>, and neither
  \<open>get_all_measurement_parameters\<close> nor \<open>read_data\<close> can raise the
  \<open>ValueError\<close> for an invalid instrument name on it, whatever the driver answers at
  read time. Without the condition the stored name can differ from the tested one: the
  scan tests the local name, and the record is the identity response updated in place.
\<close>

theorem stored_names_pass_family_test:
  assumes "scan_devices drv ids = Inr devs" and "list_all (reads_keep_name drv) ids"
  shows "\<exists>dl. sensosys_devices_list devs = Inr dl \<and>
           list_all (\<lambda>d. \<exists>n. fst (snd d) = VStr n \<and>
              (startswith n ''ANEMO'' \<or> startswith n ''THERM'' \<or> startswith n ''HYGRO'')) dl \<and>
           (\<forall>drv' x. get_all_measurement_parameters drv' dl \<noteq>
                        Inl (ValueError_invalid_instrument_name x) \<and>
                      read_data drv' dl \<noteq> Inl (ValueError_invalid_instrument_name x))"
proof -
  let ?fam = "\<lambda>name. \<exists>n. name = VStr n \<and>
    (startswith n ''ANEMO'' \<or> startswith n ''THERM'' \<or> startswith n ''HYGRO'')"
  have step: "\<exists>name. map_of r ''instrument_name'' = Some name \<and> ?fam name"
    if "i \<in> set ids" "scan_device drv i = Inr (Some r)" for i r
  proof -
    from that(1) assms(2) have "reads_keep_name drv i"
      by (simp add: list_all_iff)
    from scan_device_name [OF that(2) this] show ?thesis by auto
  qed
  from assms(1) have "list_all (\<lambda>kv. \<exists>name. map_of (snd kv) ''instrument_name'' = Some name \<and> ?fam name) devs"
    unfolding scan_devices_def
    by (rule scan_loop_records [rotated 2]) (simp_all add: step)
  from devices_list_of_named [of ?fam devs, OF this]
  obtain dl where dl: "sensosys_devices_list devs = Inr dl" "list_all (\<lambda>d. ?fam (fst (snd d))) dl"
    by auto
  have "get_all_measurement_parameters drv' dl \<noteq> Inl (ValueError_invalid_instrument_name x)"
    for drv' x
  proof
    assume "get_all_measurement_parameters drv' dl = Inl (ValueError_invalid_instrument_name x)"
    then obtain d where d: "d \<in> set dl"
      "device_params drv' d = Inl (ValueError_invalid_instrument_name x)"
      by (auto simp: get_all_measurement_parameters_def dest: get_all_loop_error)
    obtain k name c where "d = (k, name, c)" by (cases d)
    with d dl(2) show False
      by (auto simp: list_all_iff known_family_no_name_error)
  qed
  moreover have "read_data drv' dl \<noteq> Inl (ValueError_invalid_instrument_name x)"
    for drv' x
  proof
    assume "read_data drv' dl = Inl (ValueError_invalid_instrument_name x)"
    then obtain d where d: "d \<in> set dl"
      "device_data drv' d = Inl (ValueError_invalid_instrument_name x)"
      by (auto simp: read_data_def dest: read_data_loop_error)
    obtain k name c where "d = (k, name, c)" by (cases d)
    with d dl(2) show False
      by (auto simp: list_all_iff known_family_no_name_error)
  qed
  ultimately show ?thesis using dl by auto
qed

lemma demo_reads_keep_name: "list_all (reads_keep_name demo_driver) [5, 12, 200]"
  by (simp add: reads_keep_name_def lacks_instrument_name_def demo_driver_def dict_keys_def)

lemma demo_device_list:
  "and_then (scan_devices demo_driver [5, 12, 200]) sensosys_devices_list = Inr demo_devices"
  by code_simp

theorem stored_names_pass_family_test_witness:
  "list_all (reads_keep_name demo_driver) [5, 12, 200] \<and>
   and_then (scan_devices demo_driver [5, 12, 200]) sensosys_devices_list = Inr demo_devices \<and>
   (\<forall>x. get_all_measurement_parameters demo_driver demo_devices \<noteq>
          Inl (ValueError_invalid_instrument_name x))"
proof -
  from demo_scan_ok obtain devs where devs: "scan_devices demo_driver [5, 12, 200] = Inr devs"
    by (cases "scan_devices demo_driver [5, 12, 200]") auto
  with demo_device_list have dl: "sensosys_devices_list devs = Inr demo_devices"
    by (simp add: and_then_def)
  from stored_names_pass_family_test [OF devs demo_reads_keep_name]
  have "\<forall>x. get_all_measurement_parameters demo_driver demo_devices \<noteq>
          Inl (ValueError_invalid_instrument_name x)"
    unfolding dl by blast
  with demo_reads_keep_name demo_device_list show ?thesis
    by (intro conjI)
qed

theorem stored_name_counterexample:
  "read_instrument_name renaming_driver 5 = Some [(''instrument_name'', VStr ''Anemo-X '')] \<and>
   and_then (scan_devices renaming_driver [5]) sensosys_devices_list =
     Inr [(''5'', VStr ''sn-1005'', VNone)] \<and>
   get_all_measurement_parameters renaming_driver [(''5'', VStr ''sn-1005'', VNone)] =
     Inl (ValueError_invalid_instrument_name ''sn-1005'') \<and>
   read_data renaming_driver [(''5'', VStr ''sn-1005'', VNone)] =
     Inl (ValueError_invalid_instrument_name ''sn-1005'')"
  by code_simp

subsection \<open>Calibration dates\<close>



lemma match_alts_first:
  "match_seq ts rest = Some (g', r) \<Longrightarrow>
   match_alts t ts ((tok, rest) # others) = Some ((t, tok) # g', r)"
  by simp

lemma lit_matches: "(tok, rest) \<in> set (directive_matches (Lit c) s) \<longleftrightarrow> tok = [c] \<and> s = c # rest"
  by (auto simp: one_char_def split: list.splits)
















lemma split_unique:
  assumes "u @ c # X = u' @ c # X'" "c \<notin> set u" "c \<notin> set u'"
  shows "u = u' \<and> X = X'"
  using assms
proof (induction u arbitrary: u')
  case Nil
  then show ?case by (cases u') auto
next
  case (Cons a u)
  then show ?case by (cases u') auto
qed














subsection \<open>The process\<close>

lemma seq_Exit:
  "seq p f = (l, Exit c) \<Longrightarrow>
   p = (l, Exit c) \<or> (\<exists>x l1 l2. p = (l1, Return x) \<and> f x = (l2, Exit c) \<and> l = l1 @ l2)"
  by (auto simp: seq_def split: prod.splits outcome.splits)

lemma seq_Return:
  "seq p f = (l, Return y) \<Longrightarrow>
   \<exists>x l1 l2. p = (l1, Return x) \<and> f x = (l2, Return y) \<and> l = l1 @ l2"
  by (auto simp: seq_def split: prod.splits outcome.splits)

lemma seq_Return_left: "seq (l, Return x) f = (l @ fst (f x), snd (f x))"
  by (simp add: seq_def split: prod.splits)

lemma lift_not_Exit: "lift r \<noteq> (l, Exit c)"
  by (cases r) (simp_all add: lift_def)

lemma lift_Return: "lift r = (l, Return x) \<longleftrightarrow> r = Inr x \<and> l = []"
  by (cases r) (auto simp: lift_def)

lemma exit_cause_suffix: "exit_cause env l2 c \<Longrightarrow> exit_cause env (l1 @ l2) c"
  unfolding exit_cause_def by (elim disjE conjE) simp_all

lemma yes_no_Exit:
  "yes_no typed = (l, Exit c) \<Longrightarrow>
   c = Some 1 \<and> l = [invalid_input_error (strip (lower typed))] \<and>
   strip (lower typed) \<noteq> ''y'' \<and> strip (lower typed) \<noteq> ''n''"
  by (auto simp: yes_no_def Let_def split: if_splits)

lemma yes_no_Return:
  "yes_no typed = (l, Return b) \<Longrightarrow> l = [] \<and> (if b then strip (lower typed) = ''y''
     else strip (lower typed) = ''n'')"
  by (auto simp: yes_no_def Let_def split: if_splits)

lemma ports_Exit:
  assumes "scan_available_ports env = (l, Exit c)"
  shows "exit_cause env l c"
proof (cases "scan_com_ports env")
  case None
  with assms have "l = [no_ports_error]" "c = None"
    by (simp_all add: scan_available_ports_def)
  with None show ?thesis
    by (simp add: exit_cause_def)
next
  case (Some ports)
  with assms show ?thesis
    by (simp add: scan_available_ports_def)
qed

lemma ports_Return:
  "scan_available_ports env = (l, Return ports) \<Longrightarrow> scan_com_ports env = Some ports \<and> l = []"
  by (auto simp: scan_available_ports_def split: option.splits)

lemma yes_no_eval:
  "yes_no typed =
     (if strip (lower typed) = ''y'' then ([], Return True)
      else if strip (lower typed) = ''n'' then ([], Return False)
      else ([invalid_input_error (strip (lower typed))], Exit (Some 1)))"
  by (simp add: yes_no_def Let_def)

lemma seq_simps:
  "seq (l, Return x) f = (l @ fst (f x), snd (f x))"
  "seq (l, Exit c) f = (l, Exit c)"
  "seq (l, Raise e) f = (l, Raise e)"
  by (simp_all add: seq_def split: prod.splits)

lemma guide_eval:
  "get_sensosys_configs_by_guide env d ports cfg =
     (if strip (lower (answer_devmgmt env)) \<noteq> ''y'' \<and> strip (lower (answer_devmgmt env)) \<noteq> ''n''
      then ([invalid_input_error (strip (lower (answer_devmgmt env)))], Exit (Some 1))
      else if get_port_name env \<notin> set ports
      then ((if strip (lower (answer_devmgmt env)) = ''y'' then [PopDeviceManagement] else []) @
            [port_unavailable_error (get_port_name env)], Exit (Some 1))
      else if strip (lower (answer_scan_by_file env)) \<noteq> ''y'' \<and>
              strip (lower (answer_scan_by_file env)) \<noteq> ''n''
      then ((if strip (lower (answer_devmgmt env)) = ''y'' then [PopDeviceManagement] else []) @
            [invalid_input_error (strip (lower (answer_scan_by_file env)))], Exit (Some 1))
      else ((if strip (lower (answer_devmgmt env)) = ''y'' then [PopDeviceManagement] else []) @
            (case d of None \<Rightarrow> [] | Some d \<Rightarrow> [DumpJson d ''SensoSysConfigs.json'']),
            Return (True,
              AList.update ''scan_by_file'' (VBool (strip (lower (answer_scan_by_file env)) = ''y''))
                (AList.update ''port'' (VStr (get_port_name env)) cfg))))"
  by (simp add: get_sensosys_configs_by_guide_def get_if_pop_system_device_management_def
      get_scan_by_file_def yes_no_eval seq_simps Let_def)

lemma guide_Exit:
  assumes "get_sensosys_configs_by_guide env d ports cfg = (l, Exit c)"
    and "scan_com_ports env = Some ports"
  shows "exit_cause env l c"
proof -
  let ?t1 = "strip (lower (answer_devmgmt env))"
  let ?t2 = "strip (lower (answer_scan_by_file env))"
  consider (bad1) "?t1 \<noteq> ''y'' \<and> ?t1 \<noteq> ''n''"
    | (port) "\<not> (?t1 \<noteq> ''y'' \<and> ?t1 \<noteq> ''n'')" "get_port_name env \<notin> set ports"
    | (bad2) "\<not> (?t1 \<noteq> ''y'' \<and> ?t1 \<noteq> ''n'')" "\<not> get_port_name env \<notin> set ports"
        "?t2 \<noteq> ''y'' \<and> ?t2 \<noteq> ''n''"
    | (ok) "\<not> (?t1 \<noteq> ''y'' \<and> ?t1 \<noteq> ''n'')" "\<not> get_port_name env \<notin> set ports"
        "\<not> (?t2 \<noteq> ''y'' \<and> ?t2 \<noteq> ''n'')"
    by blast
  then show ?thesis
  proof cases
    case bad1
    from assms(1) have "l = [invalid_input_error ?t1]" "c = Some 1"
      unfolding guide_eval if_P [OF bad1] by simp_all
    with bad1 show ?thesis
      by (simp add: exit_cause_def)
  next
    case port
    from assms(1) have "l \<noteq> []" "last l = port_unavailable_error (get_port_name env)" "c = Some 1"
      unfolding guide_eval if_not_P [OF port(1)] if_P [OF port(2)] by auto
    with port assms(2) show ?thesis
      by (simp add: exit_cause_def)
  next
    case bad2
    from assms(1) have "l \<noteq> []" "last l = invalid_input_error ?t2" "c = Some 1"
      unfolding guide_eval if_not_P [OF bad2(1)] if_not_P [OF bad2(2)] if_P [OF bad2(3)] by auto
    with bad2 show ?thesis
      by (simp add: exit_cause_def)
  next
    case ok
    from assms(1) have False
      unfolding guide_eval if_not_P [OF ok(1)] if_not_P [OF ok(2)] if_not_P [OF ok(3)] by simp
    then show ?thesis ..
  qed
qed

lemma seq_Exit_cause:
  assumes "seq p f = (l, Exit c)"
    and "\<And>l'. p = (l', Exit c) \<Longrightarrow> exit_cause env l' c"
    and "\<And>x l1 l2. p = (l1, Return x) \<Longrightarrow> f x = (l2, Exit c) \<Longrightarrow> exit_cause env l2 c"
  shows "exit_cause env l c"
  using seq_Exit [OF assms(1)] assms(2,3) exit_cause_suffix by blast

lemma Return_not_Exit: "(l, Return x) = (l', Exit c) \<Longrightarrow> P"
  by simp

lemma resolve_Exit:
  assumes "resolve_configs env f d = (l, Exit c)"
  shows "exit_cause env l c"
  using assms unfolding resolve_configs_def
  apply (rule seq_Exit_cause)
   apply (erule Return_not_Exit)
  apply (erule seq_Exit_cause)
   apply (erule ports_Exit)
  apply (drule ports_Return)
  apply (cases f)
   apply simp
   apply (erule seq_Exit_cause)
    apply (erule guide_Exit)
    apply blast
   apply (simp split: prod.splits)
  apply (simp split: prod.splits)
  done

lemma continue_Exit:
  assumes "seq (get_if_continue env) (\<lambda>continue. if continue then p else ([], Exit (Some 0))) = (l, Exit c)"
    and "\<And>l'. p \<noteq> (l', Exit c)"
  shows "exit_cause env l c"
  using assms(1)
proof (rule seq_Exit_cause)
  fix l'
  assume "get_if_continue env = (l', Exit c)"
  from yes_no_Exit [OF this [unfolded get_if_continue_def]]
  show "exit_cause env l' c"
    by (simp add: exit_cause_def)
next
  fix x l1 l2
  assume r: "get_if_continue env = (l1, Return x)"
    and e: "(if x then p else ([], Exit (Some 0))) = (l2, Exit c)"
  from e assms(2) have "\<not> x" "c = Some 0"
    by (auto split: if_splits)
  with yes_no_Return [OF r [unfolded get_if_continue_def]]
  show "exit_cause env l2 c"
    by (simp add: exit_cause_def)
qed

lemma seq_lift_never_exits:
  "seq (l0, Return u) (\<lambda>u. seq (lift r) (\<lambda>x. ([], Return (g x)))) \<noteq> (l', Exit c)"
  by (cases r) (simp_all add: seq_simps lift_def)

lemma init_Exit:
  assumes "init env f d = (l, Exit c)"
  shows "exit_cause env l c"
  using assms unfolding init_def
  apply (rule seq_Exit_cause)
   apply (erule resolve_Exit)
  apply (erule seq_Exit_cause)
   apply (simp add: lift_not_Exit)
  apply (erule seq_Exit_cause)
   apply (simp add: lift_not_Exit)
  apply (simp only: split: if_splits)
   apply (simp add: exit_cause_def)
  apply (erule continue_Exit)
  apply (rule seq_lift_never_exits)
  done

lemma exit_cause_codes: "exit_cause env l c \<Longrightarrow> c = None \<or> c = Some 0 \<or> c = Some 1"
  unfolding exit_cause_def by (elim disjE conjE) simp_all

lemma init_status:
  assumes "exit_status (snd (init env f d)) = Some st"
  shows "st = 0 \<or> st = 1"
proof (cases "snd (init env f d)")
  case (Return x)
  with assms show ?thesis by (simp add: exit_status_def)
next
  case (Exit c)
  then have "init env f d = (fst (init env f d), Exit c)"
    by (metis prod.collapse)
  from exit_cause_codes [OF init_Exit [OF this]] assms Exit show ?thesis
    by (auto simp: exit_status_def)
next
  case (Raise e)
  with assms show ?thesis by (simp add: exit_status_def)
qed

lemma main_Exit:
  assumes "main_block env = (l, Exit c)"
  shows "init env None (Some ''Test'') = (l, Exit c)"
proof -
  from seq_Exit [OF assms [unfolded main_block_def]]
  show ?thesis
  proof (elim disjE exE conjE)
    fix x l1 l2
    assume "seq (lift (get_all_measurement_parameters (sensosys x) (devices_list x)))
              (\<lambda>headers. ([Headers headers], Return x)) = (l2, Exit c)"
    then have False
      by (cases "get_all_measurement_parameters (sensosys x) (devices_list x)")
        (simp_all add: lift_def seq_simps)
    then show ?thesis ..
  qed
qed

lemma main_status:
  assumes "exit_status (snd (main_block env)) = Some st"
  shows "st = 0 \<or> st = 1"
proof (cases "snd (main_block env)")
  case (Return x)
  with assms show ?thesis by (simp add: exit_status_def)
next
  case (Exit c)
  then have "main_block env = (fst (main_block env), Exit c)"
    by (metis prod.collapse)
  from exit_cause_codes [OF init_Exit [OF main_Exit [OF this]]] assms Exit show ?thesis
    by (auto simp: exit_status_def)
next
  case (Raise e)
  with assms show ?thesis by (simp add: exit_status_def)
qed

lemma no_ports_exit:
  assumes "scan_com_ports env = None"
  shows "init env f d =
     ((case d of None \<Rightarrow> [] | Some d \<Rightarrow> if path_exists env d then [] else [MakeDirs d]) @
      [no_ports_error], Exit None)"
  using assms
  by (simp add: init_def resolve_configs_def scan_available_ports_def seq_simps)

text \<open>
  C7: whenever \<open>__init__\<close> or the main block ends the process, the exit status is 0
  or 1 (an uncaught exception gives 1). Every \<open>sys.exit\<close> has one of the causes of
  \<open>exit_cause\<close>: code 1 after the error for an answer that is neither \<open>y\<close> nor
  \<open>n\<close> or for an unavailable COM port, code 0 after the error that no device was
  found or on the answer \<open>n\<close> to the continue prompt, and, when no COM port is
  available, \<open>sys.exit()\<close> without argument, whose exit status is 0. Conversely an
  invalid answer and an unavailable port exit with 1, and no available port exits with
  status 0.
\<close>

theorem exit_codes_are_zero_or_one:
  "(\<forall>st. exit_status (snd (init env f d)) = Some st \<longrightarrow> st = 0 \<or> st = 1) \<and>
   (\<forall>st. exit_status (snd (main_block env)) = Some st \<longrightarrow> st = 0 \<or> st = 1) \<and>
   (\<forall>l c. init env f d = (l, Exit c) \<longrightarrow> exit_cause env l c) \<and>
   (\<forall>l c. main_block env = (l, Exit c) \<longrightarrow> exit_cause env l c) \<and>
   (scan_com_ports env = None \<longrightarrow>
      snd (init env f d) = Exit None \<and> exit_status (snd (init env f d)) = Some 0) \<and>
   (\<forall>typed. strip (lower typed) \<noteq> ''y'' \<and> strip (lower typed) \<noteq> ''n'' \<longrightarrow>
      snd (yes_no typed) = Exit (Some 1)) \<and>
   (\<forall>ports cfg.
      (strip (lower (answer_devmgmt env)) = ''y'' \<or> strip (lower (answer_devmgmt env)) = ''n'') \<and>
      get_port_name env \<notin> set ports \<longrightarrow>
      snd (get_sensosys_configs_by_guide env d ports cfg) = Exit (Some 1))"
proof (intro conjI allI impI)
  fix st
  assume "exit_status (snd (init env f d)) = Some st"
  then show "st = 0 \<or> st = 1" by (rule init_status)
next
  fix st
  assume "exit_status (snd (main_block env)) = Some st"
  then show "st = 0 \<or> st = 1" by (rule main_status)
next
  fix l c
  assume "init env f d = (l, Exit c)"
  then show "exit_cause env l c" by (rule init_Exit)
next
  fix l c
  assume "main_block env = (l, Exit c)"
  then show "exit_cause env l c" by (rule init_Exit [OF main_Exit])
next
  assume n: "scan_com_ports env = None"
  then show "snd (init env f d) = Exit None"
    by (simp add: no_ports_exit)
  from n show "exit_status (snd (init env f d)) = Some 0"
    by (simp add: no_ports_exit exit_status_def)
next
  fix typed
  assume "strip (lower typed) \<noteq> ''y'' \<and> strip (lower typed) \<noteq> ''n''"
  then show "snd (yes_no typed) = Exit (Some 1)"
    by (simp add: yes_no_eval)
next
  fix ports cfg
  assume "(strip (lower (answer_devmgmt env)) = ''y'' \<or> strip (lower (answer_devmgmt env)) = ''n'') \<and>
      get_port_name env \<notin> set ports"
  then show "snd (get_sensosys_configs_by_guide env d ports cfg) = Exit (Some 1)"
    by (auto simp: guide_eval)
qed

lemma demo_answers:
  "strip (lower ''n'') = ''n''" "strip (lower '' N'') = ''n''" "strip (lower ''y'') = ''y''"
  "strip (lower ''maybe'') = ''maybe''"
  by (simp_all add: strip_def lower_def lower_char_def is_space_def)

theorem exit_codes_are_zero_or_one_witness:
  "init (demo_env\<lparr>scan_com_ports := None\<rparr>) None None = ([no_ports_error], Exit None) \<and>
   exit_cause (demo_env\<lparr>scan_com_ports := None\<rparr>) [no_ports_error] None \<and>
   exit_status (snd (init (demo_env\<lparr>scan_com_ports := None\<rparr>) None None)) = Some 0 \<and>
   snd (yes_no ''maybe'') = Exit (Some 1) \<and>
   snd (get_sensosys_configs_by_guide (demo_env\<lparr>answer_port := ''9''\<rparr>) None [''COM3'']
          sensosys_configs_default) = Exit (Some 1)"
proof -
  let ?env = "demo_env\<lparr>scan_com_ports := None\<rparr>"
  let ?env' = "demo_env\<lparr>answer_port := ''9''\<rparr>"
  have n: "scan_com_ports ?env = None" by simp
  have i: "init ?env None None = ([no_ports_error], Exit None)"
    by (simp add: no_ports_exit)
  have p: "(strip (lower (answer_devmgmt ?env')) = ''y'' \<or> strip (lower (answer_devmgmt ?env')) = ''n'') \<and>
      get_port_name ?env' \<notin> set [''COM3'']"
    by (simp add: demo_env_def demo_answers get_port_name_def)
  have m: "strip (lower ''maybe'') \<noteq> ''y'' \<and> strip (lower ''maybe'') \<noteq> ''n''"
    by (simp add: demo_answers)
  from exit_codes_are_zero_or_one [of ?env None None] i n m
  have 1: "exit_cause ?env [no_ports_error] None"
    "exit_status (snd (init ?env None None)) = Some 0"
    "snd (yes_no ''maybe'') = Exit (Some 1)"
    by blast+
  from exit_codes_are_zero_or_one [of ?env' x None] p
  have 2: "snd (get_sensosys_configs_by_guide ?env' None [''COM3''] sensosys_configs_default) = Exit (Some 1)"
    by blast
  from i 1 2 show ?thesis by (intro conjI)
qed

lemma no_headers_mono:
  "list_all (\<lambda>e. \<not> is_headers e) l1 \<Longrightarrow> list_all (\<lambda>e. \<not> is_headers e) l2 \<Longrightarrow>
   list_all (\<lambda>e. \<not> is_headers e) (l1 @ l2)"
  by simp

lemma seq_trace:
  assumes "list_all Q (fst p)" "\<And>x. list_all Q (fst (f x))"
  shows "list_all Q (fst (seq p f))"
proof (cases p)
  case (Pair l r)
  with assms show ?thesis
    by (cases r) (simp_all add: seq_simps)
qed

lemma lift_trace: "list_all Q (fst (lift r))"
  by (cases r) (simp_all add: lift_def)

lemma yes_no_trace: "list_all (\<lambda>e. \<not> is_headers e) (fst (yes_no typed))"
  by (simp add: yes_no_eval is_headers_def invalid_input_error_def)

lemma guide_trace:
  "list_all (\<lambda>e. \<not> is_headers e) (fst (get_sensosys_configs_by_guide env d ports cfg))"
  by (simp add: guide_eval is_headers_def invalid_input_error_def port_unavailable_error_def
      split: option.splits)

lemma resolve_trace:
  "list_all (\<lambda>e. \<not> is_headers e) (fst (resolve_configs env f d))"
  unfolding resolve_configs_def
  apply (rule seq_trace)
   apply (simp add: is_headers_def split: option.splits)
  apply (rule seq_trace)
   apply (simp add: scan_available_ports_def is_headers_def no_ports_error_def split: option.splits)
  apply (cases f)
   apply simp
   apply (rule seq_trace)
    apply (rule guide_trace)
   apply (simp add: is_headers_def split: prod.splits)
  apply (simp add: get_sensosys_configs_by_file_def is_headers_def split: prod.splits option.splits)
  done

text \<open>
  C6: when the configuration is resolved, the driver is constructed and the scan finds
  no device, \<open>__init__\<close> logs the error that no device was found and exits with code
  0 at once: the error is the last thing traced, no header list is in the trace, and
  the main block ends with the same trace and exit, so
  \<open>get_all_measurement_parameters\<close> is never reached.
\<close>

theorem no_devices_exits_before_header:
  assumes "resolve_configs env f d = (l, Return configs)"
    and "init_sensosys env configs = Inr drv"
    and "scan_by_configs env configs drv = Inr []"
  shows "init env f d = (l @ [no_devices_error], Exit (Some 0)) \<and>
         exit_status (snd (init env f d)) = Some 0 \<and>
         list_all (\<lambda>e. \<not> is_headers e) (l @ [no_devices_error]) \<and>
         (f = None \<and> d = Some ''Test'' \<longrightarrow>
            main_block env = (l @ [no_devices_error], Exit (Some 0)))"
proof -
  have i: "init env f d = (l @ [no_devices_error], Exit (Some 0))"
    by (simp add: init_def assms seq_simps lift_def)
  from resolve_trace [of env f d] assms(1) have "list_all (\<lambda>e. \<not> is_headers e) l"
    by simp
  then have h: "list_all (\<lambda>e. \<not> is_headers e) (l @ [no_devices_error])"
    by (simp add: is_headers_def no_devices_error_def)
  from i have "f = None \<and> d = Some ''Test'' \<longrightarrow>
      main_block env = (l @ [no_devices_error], Exit (Some 0))"
    by (auto simp: main_block_def seq_simps)
  with i h show ?thesis
    by (simp add: exit_status_def)
qed

lemma scan_loop_all_silent:
  "(\<And>i. read_instrument_name drv i = None) \<Longrightarrow> scan_loop drv ids acc = Inr acc"
  by (induction ids arbitrary: acc) (simp_all add: scan_device_def)

lemma demo_resolve:
  "resolve_configs (demo_env\<lparr>SensoSys := (\<lambda>port time_out. Inr silent_driver)\<rparr>) None (Some ''Test'') =
     ([MakeDirs ''Test'', DumpJson ''Test'' ''SensoSysConfigs.json''],
      Return [(''port'', VStr ''COM3''), (''scan_by_file'', VBool False), (''time_out'', VNum (5 / 100))])"
  by (simp add: resolve_configs_def scan_available_ports_def guide_eval seq_simps demo_env_def
      demo_answers get_port_name_def sensosys_configs_default_def)

theorem no_devices_exits_before_header_witness:
  "main_block (demo_env\<lparr>SensoSys := (\<lambda>port time_out. Inr silent_driver)\<rparr>) =
     ([MakeDirs ''Test'', DumpJson ''Test'' ''SensoSysConfigs.json'', no_devices_error],
      Exit (Some 0)) \<and>
   exit_status (snd (init (demo_env\<lparr>SensoSys := (\<lambda>port time_out. Inr silent_driver)\<rparr>)
                      None (Some ''Test''))) = Some 0"
proof -
  let ?env = "demo_env\<lparr>SensoSys := (\<lambda>port time_out. Inr silent_driver)\<rparr>"
  let ?cfg = "[(''port'', VStr ''COM3''), (''scan_by_file'', VBool False), (''time_out'', VNum (5 / 100))]"
  have d: "init_sensosys ?env ?cfg = Inr silent_driver"
    by (simp add: init_sensosys_def dict_item_def and_then_def)
  have "scan_devices_by_ids silent_driver = Inr []"
    unfolding scan_devices_by_ids_def scan_devices_def
    by (rule scan_loop_all_silent) (simp add: silent_driver_def)
  then have s: "scan_by_configs ?env ?cfg silent_driver = Inr []"
    by (simp add: scan_by_configs_def dict_item_def and_then_def)
  from no_devices_exits_before_header [OF demo_resolve d s]
  show ?thesis by (simp add: exit_status_def)
qed

end
